theory Spec2Isabelle
  imports Complex_Main
begin

section \<open>The soft-shadow filter (the GLSL chunk \<open>_PCSS\<close> of main.js)\<close>

text \<open>
  The shader's \<open>float\<close> is read as a real number: \<open>+\<close>, \<open>-\<close>, \<open>*\<close>, \<open>/\<close>, \<open>cos\<close>,
  \<open>sin\<close> and \<open>pow\<close> are the exact operations, with no rounding, overflow, infinity or
  NaN. A division by zero, which GLSL leaves to the hardware, is HOL's \<open>x / 0 = 0\<close>.
  It can arise in the search radius (\<open>zReceiver = 0\<close>) and in the filter radius
  (\<open>zReceiver = 0\<close> or an average blocker depth of 0), and these two only decide which
  coordinates of the shadow map are fetched.

  A \<open>vec2\<close> is a pair. The three.js helpers the chunk calls but does not define
  are taken as they are used: \<open>PI2\<close> is \<open>2\<pi>\<close>, \<open>rand\<close> is a parameter, and
  \<open>unpackRGBAToDepth (texture2D (shadowMap, p))\<close> is the application \<open>shadowMap p\<close>
  of a parameter of type \<open>vec2 \<Rightarrow> real\<close> (the decoded depth stored at \<open>p\<close>).
\<close>

type_synonym vec2 = "real \<times> real"
type_synonym sampler2D = "vec2 \<Rightarrow> real"

definition vadd :: "vec2 \<Rightarrow> vec2 \<Rightarrow> vec2" where
  "vadd a b = (fst a + fst b, snd a + snd b)"

definition vscale :: "vec2 \<Rightarrow> real \<Rightarrow> vec2" where
  "vscale a k = (fst a * k, snd a * k)"

text \<open>\<open>-p.yx\<close>: the components swapped and negated.\<close>

definition neg_yx :: "vec2 \<Rightarrow> vec2" where
  "neg_yx p = (- snd p, - fst p)"

text \<open>The Euclidean length of a \<open>vec2\<close> (GLSL \<open>length\<close>).\<close>

definition magnitude :: "vec2 \<Rightarrow> real" where
  "magnitude p = sqrt ((fst p)\<^sup>2 + (snd p)\<^sup>2)"

definition LIGHT_WORLD_SIZE :: real where
  "LIGHT_WORLD_SIZE = 0.05"

definition LIGHT_FRUSTUM_WIDTH :: real where
  "LIGHT_FRUSTUM_WIDTH = 3.75"

definition LIGHT_SIZE_UV :: real where
  "LIGHT_SIZE_UV = LIGHT_WORLD_SIZE / LIGHT_FRUSTUM_WIDTH"

definition NEAR_PLANE :: real where
  "NEAR_PLANE = 1.0"

definition NUM_SAMPLES :: nat where
  "NUM_SAMPLES = 17"

definition NUM_RINGS :: nat where
  "NUM_RINGS = 11"

definition BLOCKER_SEARCH_NUM_SAMPLES :: nat where
  "BLOCKER_SEARCH_NUM_SAMPLES = NUM_SAMPLES"

definition PCF_NUM_SAMPLES :: nat where
  "PCF_NUM_SAMPLES = NUM_SAMPLES"

definition PI2 :: real where
  "PI2 = 2 * pi"

subsection \<open>\<open>initPoissonSamples\<close>\<close>

definition ANGLE_STEP :: real where
  "ANGLE_STEP = PI2 * real NUM_RINGS / real NUM_SAMPLES"

definition INV_NUM_SAMPLES :: real where
  "INV_NUM_SAMPLES = 1.0 / real NUM_SAMPLES"

definition radiusStep :: real where
  "radiusStep = INV_NUM_SAMPLES"

text \<open>
  The \<open>for\<close> loop, with its variables \<open>i\<close>, \<open>radius\<close>, \<open>angle\<close> and the global array
  \<open>poissonDisk\<close> as arguments. \<open>pow (radius, 0.75)\<close> is \<open>radius powr 0.75\<close>: the
  radius is positive throughout.
\<close>

function poissonLoop :: "nat \<Rightarrow> real \<Rightarrow> real \<Rightarrow> vec2 list \<Rightarrow> vec2 list" where
  "poissonLoop i radius angle poissonDisk =
     (if i < NUM_SAMPLES
      then poissonLoop (Suc i) (radius + radiusStep) (angle + ANGLE_STEP)
             (poissonDisk[i := vscale (cos angle, sin angle) (radius powr 0.75)])
      else poissonDisk)"
  by pat_completeness auto
termination
  by (relation "measure (\<lambda>(i, radius, angle, poissonDisk). NUM_SAMPLES - i)") auto

text \<open>
  \<open>vec2 poissonDisk[NUM_SAMPLES]\<close> is a global of fixed size whose entries the loop
  overwrites one by one; it starts here as \<open>NUM_SAMPLES\<close> zero vectors, and the
  function returns the array it has filled.
\<close>

definition initPoissonSamples :: "(vec2 \<Rightarrow> real) \<Rightarrow> vec2 \<Rightarrow> vec2 list" where
  "initPoissonSamples rand randomSeed =
     poissonLoop 0 INV_NUM_SAMPLES (rand randomSeed * PI2)
       (replicate NUM_SAMPLES (0, 0))"

subsection \<open>\<open>penumbraSize\<close>, \<open>findBlocker\<close>, \<open>PCF_Filter\<close>, \<open>PCSS\<close>\<close>

definition penumbraSize :: "real \<Rightarrow> real \<Rightarrow> real" where
  "penumbraSize zReceiver zBlocker = (zReceiver - zBlocker) / zBlocker"

text \<open>
  Every function that reads the shadow map returns, next to its value, the list of the
  coordinates it has fetched, in the order of the \<open>texture2D\<close> calls. The loop of
  \<open>findBlocker\<close> takes the search radius as its argument \<open>radius\<close>.
\<close>

function blockerLoop ::
  "sampler2D \<Rightarrow> vec2 list \<Rightarrow> vec2 \<Rightarrow> real \<Rightarrow> real \<Rightarrow> nat \<Rightarrow> real \<Rightarrow> nat \<Rightarrow> vec2 list
     \<Rightarrow> real \<times> nat \<times> vec2 list" where
  "blockerLoop shadowMap poissonDisk uv zReceiver radius i blockerDepthSum numBlockers fetched =
     (if i < BLOCKER_SEARCH_NUM_SAMPLES
      then let p = vadd uv (vscale (poissonDisk ! i) radius);
               shadowMapDepth = shadowMap p
           in if shadowMapDepth < zReceiver
              then blockerLoop shadowMap poissonDisk uv zReceiver radius (Suc i)
                     (blockerDepthSum + shadowMapDepth) (Suc numBlockers) (fetched @ [p])
              else blockerLoop shadowMap poissonDisk uv zReceiver radius (Suc i)
                     blockerDepthSum numBlockers (fetched @ [p])
      else (blockerDepthSum, numBlockers, fetched))"
  by pat_completeness auto
termination
  by (relation "measure (\<lambda>(shadowMap, poissonDisk, uv, zReceiver, radius, i, rest).
                           BLOCKER_SEARCH_NUM_SAMPLES - i)") auto

text \<open>The local \<open>searchRadius\<close> of \<open>findBlocker\<close>, as a function of the depth it is computed from.\<close>

definition searchRadius :: "real \<Rightarrow> real" where
  "searchRadius zReceiver = LIGHT_SIZE_UV * (zReceiver - NEAR_PLANE) / zReceiver"

definition findBlocker :: "sampler2D \<Rightarrow> vec2 list \<Rightarrow> vec2 \<Rightarrow> real \<Rightarrow> real \<times> vec2 list" where
  "findBlocker shadowMap poissonDisk uv zReceiver =
     (let (blockerDepthSum, numBlockers, fetched) =
             blockerLoop shadowMap poissonDisk uv zReceiver (searchRadius zReceiver) 0 0.0 0 []
      in if numBlockers = 0 then (- 1.0, fetched)
         else (blockerDepthSum / real numBlockers, fetched))"

text \<open>
  The two loops of \<open>PCF_Filter\<close> differ in the offset only: \<open>poissonDisk[i]\<close> in the
  first, \<open>-poissonDisk[i].yx\<close> in the second, which \<open>tap\<close> selects; \<open>sumv\<close> is the
  variable \<open>sum\<close>.
\<close>

function pcfLoop ::
  "(vec2 \<Rightarrow> vec2) \<Rightarrow> sampler2D \<Rightarrow> vec2 list \<Rightarrow> vec2 \<Rightarrow> real \<Rightarrow> real \<Rightarrow> nat \<Rightarrow> real \<Rightarrow> vec2 list
     \<Rightarrow> real \<times> vec2 list" where
  "pcfLoop tap shadowMap poissonDisk uv zReceiver filterRadius i sumv fetched =
     (if i < PCF_NUM_SAMPLES
      then let p = vadd uv (vscale (tap (poissonDisk ! i)) filterRadius);
               depth = shadowMap p
           in pcfLoop tap shadowMap poissonDisk uv zReceiver filterRadius (Suc i)
                (if zReceiver \<le> depth then sumv + 1.0 else sumv) (fetched @ [p])
      else (sumv, fetched))"
  by pat_completeness auto
termination
  by (relation "measure (\<lambda>(tap, shadowMap, poissonDisk, uv, zReceiver, filterRadius, i, rest).
                           PCF_NUM_SAMPLES - i)") auto

definition PCF_Filter :: "sampler2D \<Rightarrow> vec2 list \<Rightarrow> vec2 \<Rightarrow> real \<Rightarrow> real \<Rightarrow> real \<times> vec2 list" where
  "PCF_Filter shadowMap poissonDisk uv zReceiver filterRadius =
     (let (sum1, fetched1) =
             pcfLoop (\<lambda>p. p) shadowMap poissonDisk uv zReceiver filterRadius 0 0.0 [];
          (sum2, fetched2) =
             pcfLoop neg_yx shadowMap poissonDisk uv zReceiver filterRadius 0 sum1 fetched1
      in (sum2 / (2.0 * real PCF_NUM_SAMPLES), fetched2))"

text \<open>The local \<open>filterRadius\<close> of \<open>PCSS\<close>, as a function of the two depths it is computed from.\<close>

definition filterRadius :: "real \<Rightarrow> real \<Rightarrow> real" where
  "filterRadius zReceiver avgBlockerDepth =
     (let penumbraRatio = penumbraSize zReceiver avgBlockerDepth
      in penumbraRatio * LIGHT_SIZE_UV * NEAR_PLANE / zReceiver)"

text \<open>
  \<open>coords\<close> is the shadow coordinate: \<open>coords.xy\<close> is its first component here,
  \<open>coords.z\<close> its second. The result is the attenuation and the fetched coordinates.
\<close>

definition PCSS :: "(vec2 \<Rightarrow> real) \<Rightarrow> sampler2D \<Rightarrow> vec2 \<times> real \<Rightarrow> real \<times> vec2 list" where
  "PCSS rand shadowMap coords =
     (let uv = fst coords;
          zReceiver = snd coords;
          poissonDisk = initPoissonSamples rand uv;
          (avgBlockerDepth, fetched) = findBlocker shadowMap poissonDisk uv zReceiver
      in if avgBlockerDepth = - 1.0 then (1.0, fetched)
         else let (attenuation, fetched') =
                     PCF_Filter shadowMap poissonDisk uv zReceiver
                       (filterRadius zReceiver avgBlockerDepth)
              in (attenuation, fetched @ fetched'))"

text \<open>Inputs used at concrete points: a shadow map of one depth everywhere, a constant \<open>rand\<close>.\<close>

definition uniformMap :: "real \<Rightarrow> sampler2D" where
  "uniformMap d = (\<lambda>p. d)"

definition rand0 :: "vec2 \<Rightarrow> real" where
  "rand0 = (\<lambda>p. 0)"

text \<open>The coordinate of the \<open>i\<close>-th fetch of the blocker search for the coordinate \<open>(uv, zReceiver)\<close>.\<close>

definition blockerTap :: "(vec2 \<Rightarrow> real) \<Rightarrow> vec2 \<Rightarrow> real \<Rightarrow> nat \<Rightarrow> vec2" where
  "blockerTap rand uv zReceiver i =
     vadd uv (vscale (initPoissonSamples rand uv ! i) (searchRadius zReceiver))"

subsection \<open>The spec's words for the offsets, the blockers and the lit taps\<close>

text \<open>
  The offset the spec's Step A gives for index \<open>i\<close>: \<open>(cos angle, sin angle) \<cdot> radius^0.75\<close>
  with \<open>angle = hash \<cdot> 2\<pi> + i \<cdot> angleStep\<close> and \<open>radius = (i + 1) \<cdot> invNum\<close>.
\<close>

definition stepA_offset :: "(vec2 \<Rightarrow> real) \<Rightarrow> vec2 \<Rightarrow> nat \<Rightarrow> vec2" where
  "stepA_offset rand seed i =
     vscale (cos (rand seed * PI2 + real i * ANGLE_STEP), sin (rand seed * PI2 + real i * ANGLE_STEP))
       ((real (i + 1) * INV_NUM_SAMPLES) powr 0.75)"

text \<open>The depths below \<open>zReceiver\<close> among the 17 fetches of the blocker search, in order.\<close>

definition blockerDepths :: "(vec2 \<Rightarrow> real) \<Rightarrow> sampler2D \<Rightarrow> vec2 \<Rightarrow> real \<Rightarrow> real list" where
  "blockerDepths rand shadowMap uv zReceiver =
     filter (\<lambda>d. d < zReceiver)
       (map (\<lambda>i. shadowMap (blockerTap rand uv zReceiver i)) [0..<NUM_SAMPLES])"

text \<open>The 34 coordinates the filtering pass fetches for the filter radius \<open>r\<close>, in order.\<close>

definition filterTaps :: "(vec2 \<Rightarrow> real) \<Rightarrow> vec2 \<Rightarrow> real \<Rightarrow> vec2 list" where
  "filterTaps rand uv r =
     map (\<lambda>i. vadd uv (vscale (initPoissonSamples rand uv ! i) r)) [0..<NUM_SAMPLES]
     @ map (\<lambda>i. vadd uv (vscale (neg_yx (initPoissonSamples rand uv ! i)) r)) [0..<NUM_SAMPLES]"

text \<open>The taps among \<open>taps\<close> that the receiver depth does not exceed: the lit ones.\<close>

definition litTaps :: "sampler2D \<Rightarrow> real \<Rightarrow> vec2 list \<Rightarrow> vec2 list" where
  "litTaps shadowMap zReceiver taps = filter (\<lambda>p. zReceiver \<le> shadowMap p) taps"

section \<open>The application object (class \<open>BasicWorldDemo\<close> of main.js)\<close>

text \<open>
  A method of the class is a function from the state before the call to an outcome: the
  state after it, reached by a normal return or by a thrown exception. The one
  exception the class can raise by itself is the \<open>TypeError\<close> of a property access on
  \<open>null\<close> or \<open>undefined\<close>. Names keep the source's spelling, except that a leading
  or trailing underscore is dropped (\<open>_OnStart\<close> is \<open>OnStart\<close>, \<open>Step_\<close> is
  \<open>Step\<close>, \<open>mesh_\<close> is \<open>mesh\<close>) and that a field \<open>this.x\<close> of the application is
  \<open>this_x\<close> (\<open>this._gameOver\<close> is \<open>this_gameOver\<close>, \<open>this.scene_\<close> is \<open>this_scene\<close>).
\<close>

datatype js_error = TypeError

datatype 'a outcome =
    is_Returned: Returned (state_of: 'a)
  | Threw js_error (state_of: 'a)

definition and_then :: "'a outcome \<Rightarrow> ('a \<Rightarrow> 'a outcome) \<Rightarrow> 'a outcome" where
  "and_then r f = (case r of Returned s \<Rightarrow> f s | Threw e s \<Rightarrow> Threw e s)"

subsection \<open>The page\<close>

text \<open>
  \<open>document.getElementById\<close> is a partial map from ids to elements (\<open>None\<close> is
  \<open>null\<close>). An element carries what the class reads or writes: \<open>value\<close>,
  \<open>style.display\<close> and \<open>classList\<close>.
\<close>

record element =
  el_value :: string
  style_display :: string
  classList :: "string list"

type_synonym page = "string \<rightharpoonup> element"

definition classList_add :: "string \<Rightarrow> element \<Rightarrow> element" where
  "classList_add c el =
     (if c \<in> set (classList el) then el else el\<lparr>classList := classList el @ [c]\<rparr>)"

definition classList_remove :: "string \<Rightarrow> element \<Rightarrow> element" where
  "classList_remove c el = el\<lparr>classList := removeAll c (classList el)\<rparr>"

subsection \<open>The scene and the collaborators\<close>

text \<open>
  An actor is an object of the scene graph: \<open>ident\<close> is its identity (every \<open>new\<close>
  takes the next number of the counter \<open>fresh\<close>), \<open>kind\<close> says what was constructed.
  The constructor arguments of the lights, the ground and the sky are constants of
  \<open>_InitializeScene\<close> and are not repeated in the kind. A colour is its number.
\<close>

datatype kind =
    DirectionalLight
  | HemisphereLight
  | Ground
  | Sky
  | WorldActor
  | PlayerActor "string option"
  | BackgroundActor

record actor =
  ident :: nat
  kind :: kind

record scene =
  children :: "actor list"
  background :: "nat option"
  fog :: "(nat \<times> real) option"

text \<open>
  three.js r124: \<open>add\<close> pushes an object that has no parent yet onto \<open>children\<close>,
  \<open>remove\<close> splices it out where \<open>indexOf\<close> finds it, \<open>clear\<close> empties \<open>children\<close>.
\<close>

definition scene_add :: "actor \<Rightarrow> scene \<Rightarrow> scene" where
  "scene_add a sc = sc\<lparr>children := children sc @ [a]\<rparr>"

definition scene_remove :: "actor \<Rightarrow> scene \<Rightarrow> scene" where
  "scene_remove a sc = sc\<lparr>children := remove1 a (children sc)\<rparr>"

definition scene_clear :: "scene \<Rightarrow> scene" where
  "scene_clear sc = sc\<lparr>children := []\<rparr>"

record camera =
  aspect :: "nat \<times> nat"

text \<open>
  \<open>aspect\<close> keeps numerator and denominator of the quotient the source assigns
  (\<open>1920 / 1080\<close>, \<open>innerWidth / innerHeight\<close>); the quotient itself is never read here.
\<close>

record Player =
  mesh :: actor
  gameOver :: bool

record WorldManager =
  world_mesh :: actor

record Background =
  background_mesh :: actor

text \<open>
  The objects the collaborators hold a reference to, or are: the scene, the three
  collaborators (\<open>None\<close> is \<open>undefined\<close>) and the allocation counter.
\<close>

record objects =
  this_scene :: scene
  this_world :: "WorldManager option"
  this_player :: "Player option"
  this_background :: "Background option"
  fresh :: nat

text \<open>\<open>x = new \<dots>; this.scene_.add (x)\<close> for an object of kind \<open>k\<close>.\<close>

definition add_new :: "kind \<Rightarrow> 'a objects_scheme \<Rightarrow> 'a objects_scheme" where
  "add_new k s =
     s\<lparr>this_scene := scene_add \<lparr>ident = fresh s, kind = k\<rparr> (this_scene s), fresh := Suc (fresh s)\<rparr>"

text \<open>
  Modelled from the spec: the classes \<open>player.Player\<close>, \<open>world.WorldManager\<close> and
  \<open>background.Background\<close> (player.js, world.js, background.js) are not part of the
  given source. By the spec's data model the Scene holds one player Actor, one world
  Actor and one background Actor, the player Actor is bound to the character it was
  constructed with, and the player exposes a terminal flag. So each constructor makes
  one new actor and puts it into the scene it is given; a new player is not terminal.
\<close>

definition new_WorldManager :: "'a objects_scheme \<Rightarrow> WorldManager \<times> 'a objects_scheme" where
  "new_WorldManager s = (\<lparr>world_mesh = \<lparr>ident = fresh s, kind = WorldActor\<rparr>\<rparr>, add_new WorldActor s)"

definition new_Player :: "string option \<Rightarrow> 'a objects_scheme \<Rightarrow> Player \<times> 'a objects_scheme" where
  "new_Player character s =
     (\<lparr>mesh = \<lparr>ident = fresh s, kind = PlayerActor character\<rparr>, gameOver = False\<rparr>,
      add_new (PlayerActor character) s)"

definition new_Background :: "'a objects_scheme \<Rightarrow> Background \<times> 'a objects_scheme" where
  "new_Background s =
     (\<lparr>background_mesh = \<lparr>ident = fresh s, kind = BackgroundActor\<rparr>\<rparr>, add_new BackgroundActor s)"

text \<open>
  The \<open>Update\<close> methods of the collaborators are parameters: each is any function of
  the elapsed time and of the objects above. They see neither the flags of the
  application nor the page, and are taken to return normally.
\<close>

record collaborators =
  Player_Update :: "real \<Rightarrow> objects \<Rightarrow> objects"
  World_Update :: "real \<Rightarrow> objects \<Rightarrow> objects"
  Background_Update :: "real \<Rightarrow> objects \<Rightarrow> objects"

subsection \<open>The state\<close>

text \<open>
  The calls the application makes to what lies outside it, in order: this list is the
  only trace of them, no method reads it.
\<close>

datatype call =
    RequestAnimationFrame
  | PlayerUpdate real
  | WorldUpdate real
  | BackgroundUpdate real
  | Render scene camera
  | ConsoleLog string
  | UpdateProjectionMatrix
  | SetSize nat nat

record BasicWorldDemo = objects +
  this_camera :: camera
  this_previousRAF :: "real option"
  this_gameStarted :: bool
  this_gameOver :: bool
  this_currentCharacter :: "string option"
  document :: page
  calls :: "call list"

definition invoke :: "(objects \<Rightarrow> objects) \<Rightarrow> BasicWorldDemo \<Rightarrow> BasicWorldDemo" where
  "invoke f s =
     (let v = f \<lparr>this_scene = this_scene s, this_world = this_world s, this_player = this_player s,
                  this_background = this_background s, fresh = fresh s\<rparr>
      in s\<lparr>this_scene := this_scene v, this_world := this_world v, this_player := this_player v,
            this_background := this_background v, fresh := fresh v\<rparr>)"

definition log_call :: "call \<Rightarrow> BasicWorldDemo \<Rightarrow> BasicWorldDemo" where
  "log_call c s = s\<lparr>calls := calls s @ [c]\<rparr>"


subsection \<open>The methods\<close>

definition InitializeScene :: "BasicWorldDemo \<Rightarrow> BasicWorldDemo" where
  "InitializeScene s =
     (let s1 = s\<lparr>this_scene := (this_scene s)\<lparr>background := Some 8421504,
                                                fog := Some (9024235, 0.00125)\<rparr>\<rparr>;
          s2 = add_new DirectionalLight s1;
          s3 = add_new HemisphereLight s2;
          s4 = add_new Ground s3;
          s5 = add_new Sky s4;
          (w, s6) = new_WorldManager s5;
          s7 = s6\<lparr>this_world := Some w\<rparr>;
          (p, s8) = new_Player (this_currentCharacter s7) s7;
          s9 = s8\<lparr>this_player := Some p\<rparr>;
          (b, s10) = new_Background s9
      in s10\<lparr>this_background := Some b\<rparr>)"

text \<open>\<open>0x808080\<close> is 8421504 and \<open>0x89b2eb\<close> is 9024235.\<close>

definition RAF :: "BasicWorldDemo \<Rightarrow> BasicWorldDemo" where
  "RAF s = log_call RequestAnimationFrame s"

text \<open>
  \<open>RAF\<close> is the call \<open>requestAnimationFrame (\<dots>)\<close> that \<open>RAF_\<close> consists of; the arrow
  function it registers is \<open>frame\<close> below, run by the browser with a timestamp.
  \<open>_Initialize\<close> starts from an object none of whose fields is assigned. The renderer
  \<open>this.threejs_\<close> is no field here: what the application asks of it after the start,
  \<open>render\<close> and \<open>setSize\<close>, is recorded in \<open>calls\<close>.
\<close>

definition Initialize :: "BasicWorldDemo \<Rightarrow> BasicWorldDemo outcome" where
  "Initialize s =
     (case document s ''container'' of
        None \<Rightarrow> Threw TypeError s
      | Some container \<Rightarrow>
          let s1 = s\<lparr>this_scene := \<lparr>children = [], background = None, fog = None\<rparr>,
                     this_camera := \<lparr>aspect = (1920, 1080)\<rparr>\<rparr>;
              s2 = InitializeScene s1;
              s3 = s2\<lparr>this_previousRAF := None\<rparr>
          in Returned (RAF s3))"

text \<open>
  The object as \<open>new\<close> hands it to the constructor, on the page \<open>doc\<close>: no field is
  assigned. An unassigned collaborator or character is \<open>None\<close>; the flags, the scene
  and the camera are assigned before anything reads them.
\<close>

definition blank :: "page \<Rightarrow> BasicWorldDemo" where
  "blank doc =
     \<lparr>this_scene = \<lparr>children = [], background = None, fog = None\<rparr>,
      this_world = None, this_player = None, this_background = None, fresh = 0,
      this_camera = \<lparr>aspect = (1, 1)\<rparr>, this_previousRAF = None,
      this_gameStarted = False, this_gameOver = False, this_currentCharacter = None,
      document = doc, calls = []\<rparr>"

text \<open>
  The constructor. Setting \<open>onclick\<close> or calling \<open>addEventListener\<close> on an element
  changes nothing the methods read; on a missing element it throws.
\<close>

definition new_BasicWorldDemo :: "page \<Rightarrow> BasicWorldDemo outcome" where
  "new_BasicWorldDemo doc =
     and_then (Initialize (blank doc)) (\<lambda>s.
       let s1 = s\<lparr>this_gameStarted := False, this_gameOver := False,
                  this_currentCharacter := Some ''Velociraptor''\<rparr>
       in if document s1 ''play-button'' = None then Threw TypeError s1
          else if document s1 ''replay-button'' = None then Threw TypeError s1
          else if document s1 ''character-select'' = None then Threw TypeError s1
          else Returned s1)"

definition ResetPlayer :: "BasicWorldDemo \<Rightarrow> BasicWorldDemo" where
  "ResetPlayer s =
     (let s1 = (case this_player s of
                  None \<Rightarrow> s
                | Some old \<Rightarrow> s\<lparr>this_scene := scene_remove (mesh old) (this_scene s)\<rparr>);
          (p, s2) = new_Player (this_currentCharacter s1) s1
      in s2\<lparr>this_player := Some p\<rparr>)"

definition OnStart :: "BasicWorldDemo \<Rightarrow> BasicWorldDemo outcome" where
  "OnStart s =
     (case document s ''character-select'' of
        None \<Rightarrow> Threw TypeError s
      | Some select \<Rightarrow>
          let s1 = s\<lparr>this_currentCharacter := Some (el_value select)\<rparr>;
              s2 = ResetPlayer s1
          in case document s2 ''game-menu'' of
               None \<Rightarrow> Threw TypeError s2
             | Some menu \<Rightarrow>
                 Returned (s2\<lparr>document := (document s2)(''game-menu'' \<mapsto> menu\<lparr>style_display := ''none''\<rparr>),
                               this_gameStarted := True\<rparr>))"

definition OnCharacterSelect :: "string \<Rightarrow> BasicWorldDemo \<Rightarrow> BasicWorldDemo" where
  "OnCharacterSelect target_value s =
     (let s1 = s\<lparr>this_currentCharacter := Some target_value\<rparr>
      in log_call (ConsoleLog (''Selected character: '' @ target_value)) s1)"

definition ResetGame :: "BasicWorldDemo \<Rightarrow> BasicWorldDemo" where
  "ResetGame s =
     (let s1 = s\<lparr>this_scene := scene_clear (this_scene s)\<rparr>;
          s2 = InitializeScene s1
      in s2\<lparr>this_gameOver := False\<rparr>)"

definition OnReplay :: "BasicWorldDemo \<Rightarrow> BasicWorldDemo outcome" where
  "OnReplay s =
     (case document s ''character-select'' of
        None \<Rightarrow> Threw TypeError s
      | Some select \<Rightarrow>
          let s1 = s\<lparr>this_currentCharacter := Some (el_value select)\<rparr>
          in case document s1 ''game-over'' of
               None \<Rightarrow> Threw TypeError s1
             | Some panel \<Rightarrow>
                 let s2 = s1\<lparr>document := (document s1)(''game-over'' \<mapsto> classList_remove ''active'' panel)\<rparr>;
                     s3 = ResetGame s2
                 in Returned (s3\<lparr>this_gameStarted := True\<rparr>))"

definition OnWindowResize :: "nat \<Rightarrow> nat \<Rightarrow> BasicWorldDemo \<Rightarrow> BasicWorldDemo" where
  "OnWindowResize innerWidth innerHeight s =
     (let s1 = s\<lparr>this_camera := (this_camera s)\<lparr>aspect := (innerWidth, innerHeight)\<rparr>\<rparr>;
          s2 = log_call UpdateProjectionMatrix s1
      in log_call (SetSize innerWidth innerHeight) s2)"

text \<open>
  A call \<open>this.player_.Update (timeElapsed)\<close>: a \<open>TypeError\<close> when the field is
  \<open>undefined\<close>, else the call is recorded and the collaborator's method runs.
\<close>

definition call_Player_Update :: "collaborators \<Rightarrow> real \<Rightarrow> BasicWorldDemo \<Rightarrow> BasicWorldDemo outcome" where
  "call_Player_Update env timeElapsed s =
     (case this_player s of
        None \<Rightarrow> Threw TypeError s
      | Some p \<Rightarrow> Returned (invoke (Player_Update env timeElapsed) (log_call (PlayerUpdate timeElapsed) s)))"

definition call_World_Update :: "collaborators \<Rightarrow> real \<Rightarrow> BasicWorldDemo \<Rightarrow> BasicWorldDemo outcome" where
  "call_World_Update env timeElapsed s =
     (case this_world s of
        None \<Rightarrow> Threw TypeError s
      | Some w \<Rightarrow> Returned (invoke (World_Update env timeElapsed) (log_call (WorldUpdate timeElapsed) s)))"

definition call_Background_Update :: "collaborators \<Rightarrow> real \<Rightarrow> BasicWorldDemo \<Rightarrow> BasicWorldDemo outcome" where
  "call_Background_Update env timeElapsed s =
     (case this_background s of
        None \<Rightarrow> Threw TypeError s
      | Some b \<Rightarrow> Returned (invoke (Background_Update env timeElapsed) (log_call (BackgroundUpdate timeElapsed) s)))"

definition Step :: "collaborators \<Rightarrow> real \<Rightarrow> BasicWorldDemo \<Rightarrow> BasicWorldDemo outcome" where
  "Step env timeElapsed s =
     (if \<not> this_gameStarted s \<or> this_gameOver s then Returned s
      else
        and_then (call_Player_Update env timeElapsed s) (\<lambda>s1.
        and_then (call_World_Update env timeElapsed s1) (\<lambda>s2.
        and_then (call_Background_Update env timeElapsed s2) (\<lambda>s3.
          case this_player s3 of
            None \<Rightarrow> Threw TypeError s3
          | Some p \<Rightarrow>
              if gameOver p \<and> \<not> this_gameOver s3
              then let s4 = s3\<lparr>this_gameOver := True\<rparr>
                   in case document s4 ''game-over'' of
                        None \<Rightarrow> Threw TypeError s4
                      | Some panel \<Rightarrow>
                          Returned (s4\<lparr>document := (document s4)(''game-over'' \<mapsto> classList_add ''active'' panel)\<rparr>)
              else Returned s3))))"

text \<open>
  The callback of \<open>RAF_\<close>, called with the timestamp \<open>t\<close>. After its first statement
  \<open>this.previousRAF_\<close> is \<open>t\<close> if it was \<open>null\<close> and unchanged otherwise: that value
  is \<open>previous\<close>.
\<close>

definition frame :: "collaborators \<Rightarrow> real \<Rightarrow> BasicWorldDemo \<Rightarrow> BasicWorldDemo outcome" where
  "frame env t s =
     (let previous = (case this_previousRAF s of None \<Rightarrow> t | Some p \<Rightarrow> p);
          s1 = s\<lparr>this_previousRAF := Some previous\<rparr>;
          s2 = RAF s1
      in and_then (Step env ((t - previous) / 1000.0) s2) (\<lambda>s3.
           let s4 = log_call (Render (this_scene s3) (this_camera s3)) s3
           in Returned (s4\<lparr>this_previousRAF := Some t\<rparr>)))"

text \<open>
  The user picks \<open>v\<close> in the dropdown: the element takes the value, then the
  \<open>change\<close> listener runs with that element as \<open>event.target\<close>.
\<close>

definition change_character :: "string \<Rightarrow> BasicWorldDemo \<Rightarrow> BasicWorldDemo" where
  "change_character v s =
     (case document s ''character-select'' of
        None \<Rightarrow> s
      | Some select \<Rightarrow>
          OnCharacterSelect v (s\<lparr>document := (document s)(''character-select'' \<mapsto> select\<lparr>el_value := v\<rparr>)\<rparr>))"

text \<open>
  The states of the application. The object lives on when \<open>_Initialize\<close> has returned,
  for then the frame callback and the resize listener hold it: the first state is the
  one the constructor leaves then, also when it throws on a missing button. Every state
  a handler or a frame leaves, whether it returns or throws, is a state too.
\<close>

inductive reachable :: "collaborators \<Rightarrow> BasicWorldDemo \<Rightarrow> bool" for env :: collaborators where
  constructed: "is_Returned (Initialize (blank doc)) \<Longrightarrow> reachable env (state_of (new_BasicWorldDemo doc))"
| start: "reachable env s \<Longrightarrow> reachable env (state_of (OnStart s))"
| replay: "reachable env s \<Longrightarrow> reachable env (state_of (OnReplay s))"
| select: "reachable env s \<Longrightarrow> reachable env (change_character v s)"
| resize: "reachable env s \<Longrightarrow> reachable env (OnWindowResize w h s)"
| tick: "reachable env s \<Longrightarrow> reachable env (state_of (frame env t s))"

subsection \<open>The session state of the spec, read off the two flags\<close>

datatype SessionState = Idle | Playing | GameOver

definition session_state :: "BasicWorldDemo \<Rightarrow> SessionState" where
  "session_state s =
     (if \<not> this_gameStarted s then Idle
      else if this_gameOver s then GameOver
      else Playing)"

text \<open>The calls made between the state \<open>s\<close> and a later state \<open>s'\<close>.\<close>

definition calls_since :: "BasicWorldDemo \<Rightarrow> BasicWorldDemo \<Rightarrow> call list" where
  "calls_since s s' = drop (length (calls s)) (calls s')"

fun is_update :: "call \<Rightarrow> bool" where
  "is_update (PlayerUpdate d) = True"
| "is_update (WorldUpdate d) = True"
| "is_update (BackgroundUpdate d) = True"
| "is_update c = False"

fun is_render :: "call \<Rightarrow> bool" where
  "is_render (Render sc cam) = True"
| "is_render c = False"


subsection \<open>A page and collaborators to run the application on\<close>

definition element0 :: element where
  "element0 = \<lparr>el_value = [], style_display = [], classList = []\<rparr>"

definition page0 :: page where
  "page0 = map_of
     [(''container'', element0), (''play-button'', element0), (''replay-button'', element0),
      (''character-select'', element0\<lparr>el_value := ''Trex''\<rparr>),
      (''game-menu'', element0), (''game-over'', element0)]"

text \<open>Collaborators that leave everything as it is, except that the player's first update ends the run.\<close>

definition fatal_player :: collaborators where
  "fatal_player =
     \<lparr>Player_Update = (\<lambda>timeElapsed v.
          v\<lparr>this_player := map_option (\<lambda>p. p\<lparr>gameOver := True\<rparr>) (this_player v)\<rparr>),
      World_Update = (\<lambda>timeElapsed v. v),
      Background_Update = (\<lambda>timeElapsed v. v)\<rparr>"

definition app0 :: BasicWorldDemo where
  "app0 = state_of (new_BasicWorldDemo page0)"


subsection \<open>Notions the statements use\<close>

text \<open>
  \<open>elapsed t s\<close> is the argument \<open>(t - this.previousRAF_) / 1000.0\<close> that the callback
  run at time \<open>t\<close> in state \<open>s\<close> passes to \<open>Step_\<close>; \<open>before_Step t s\<close> is the state in
  which it makes that call.
\<close>

definition elapsed :: "real \<Rightarrow> BasicWorldDemo \<Rightarrow> real" where
  "elapsed t s = (t - (case this_previousRAF s of None \<Rightarrow> t | Some p \<Rightarrow> p)) / 1000"

definition before_Step :: "real \<Rightarrow> BasicWorldDemo \<Rightarrow> BasicWorldDemo" where
  "before_Step t s =
     RAF (s\<lparr>this_previousRAF := Some (case this_previousRAF s of None \<Rightarrow> t | Some p \<Rightarrow> p)\<rparr>)"

definition flags_ok :: "BasicWorldDemo \<Rightarrow> bool" where
  "flags_ok s = (this_gameOver s \<longrightarrow> this_gameStarted s)"

text \<open>
  An \<open>Update\<close> method has no reference to the application, so it cannot make
  \<open>this.world_\<close>, \<open>this.player_\<close> or \<open>this.background_\<close> undefined. The functions that
  stand for the methods are arbitrary; \<open>well_behaved\<close> says this of them.
\<close>

definition collaborators_defined :: "'a objects_scheme \<Rightarrow> bool" where
  "collaborators_defined s =
     (this_world s \<noteq> None \<and> this_player s \<noteq> None \<and> this_background s \<noteq> None)"

definition well_behaved :: "collaborators \<Rightarrow> bool" where
  "well_behaved env =
     (\<forall>d v. collaborators_defined v \<longrightarrow>
        collaborators_defined (Player_Update env d v)
        \<and> collaborators_defined (World_Update env d v)
        \<and> collaborators_defined (Background_Update env d v))"

text \<open>The three calls of \<open>Step_\<close>, when they go through.\<close>

definition updated :: "collaborators \<Rightarrow> real \<Rightarrow> BasicWorldDemo \<Rightarrow> BasicWorldDemo" where
  "updated env d s =
     invoke (Background_Update env d) (log_call (BackgroundUpdate d)
       (invoke (World_Update env d) (log_call (WorldUpdate d)
         (invoke (Player_Update env d) (log_call (PlayerUpdate d) s)))))"


text \<open>The seven actors \<open>_InitializeScene\<close> adds when the counter stands at \<open>n\<close>.\<close>

definition built :: "nat \<Rightarrow> string option \<Rightarrow> actor list" where
  "built n c =
     [\<lparr>ident = n, kind = DirectionalLight\<rparr>,
      \<lparr>ident = n + 1, kind = HemisphereLight\<rparr>,
      \<lparr>ident = n + 2, kind = Ground\<rparr>,
      \<lparr>ident = n + 3, kind = Sky\<rparr>,
      \<lparr>ident = n + 4, kind = WorldActor\<rparr>,
      \<lparr>ident = n + 5, kind = PlayerActor c\<rparr>,
      \<lparr>ident = n + 6, kind = BackgroundActor\<rparr>]"

text \<open>
  A run on \<open>page0\<close>: \<open>app0\<close> is the application as constructed (Idle); \<open>early\<close> is
  \<open>app0\<close> after a click on Play that comes before the first frame; \<open>app1\<close> is \<open>app0\<close>
  after a frame at time 5 and a click on Play (Playing); \<open>app2\<close> is \<open>app1\<close> after a frame
  at time 7 in which the player ends the run (GameOver). \<open>scene0\<close> and \<open>scene1\<close> are
  the scenes of \<open>app0\<close> and \<open>app1\<close>.
\<close>

definition early :: BasicWorldDemo where
  "early = state_of (OnStart app0)"

definition app1 :: BasicWorldDemo where
  "app1 = state_of (OnStart (state_of (frame fatal_player 5 app0)))"

definition app2 :: BasicWorldDemo where
  "app2 = state_of (frame fatal_player 7 app1)"

definition scene0 :: scene where
  "scene0 = \<lparr>children = built 0 None, background = Some 8421504, fog = Some (9024235, 0.00125)\<rparr>"

definition scene1 :: scene where
  "scene1 =
     \<lparr>children =
        [\<lparr>ident = 0, kind = DirectionalLight\<rparr>, \<lparr>ident = 1, kind = HemisphereLight\<rparr>,
         \<lparr>ident = 2, kind = Ground\<rparr>, \<lparr>ident = 3, kind = Sky\<rparr>,
         \<lparr>ident = 4, kind = WorldActor\<rparr>, \<lparr>ident = 6, kind = BackgroundActor\<rparr>,
         \<lparr>ident = 7, kind = PlayerActor (Some ''Trex'')\<rparr>],
      background = Some 8421504, fog = Some (9024235, 0.00125)\<rparr>"

definition camera0 :: camera where
  "camera0 = \<lparr>aspect = (1920, 1080)\<rparr>"

section \<open>Properties of the soft-shadow filter\<close>

subsection \<open>The loops\<close>

declare poissonLoop.simps [simp del] blockerLoop.simps [simp del] pcfLoop.simps [simp del]

lemma length_poissonLoop: "length (poissonLoop i radius angle d) = length d"
proof (induction i radius angle d rule: poissonLoop.induct)
  case (1 i radius angle d)
  show ?case using 1 by (subst poissonLoop.simps) simp
qed

lemma magnitude_unit_scaled: "magnitude (vscale (cos a, sin a) k) = \<bar>k\<bar>"
proof -
  have "(cos a * k)\<^sup>2 + (sin a * k)\<^sup>2 = k\<^sup>2 * ((cos a)\<^sup>2 + (sin a)\<^sup>2)"
    by (simp only: power_mult_distrib distrib_left mult.commute)
  also have "\<dots> = k\<^sup>2"
    by simp
  finally show ?thesis
    by (simp add: magnitude_def vscale_def)
qed


lemma poissonLoop_magnitude:
  assumes "radius = real (i + 1) * INV_NUM_SAMPLES"
    and "length d = NUM_SAMPLES"
    and "\<forall>j<i. j < NUM_SAMPLES \<longrightarrow> magnitude (d ! j) \<le> 1"
  shows "\<forall>j<NUM_SAMPLES. magnitude (poissonLoop i radius angle d ! j) \<le> 1"
  using assms
proof (induction i radius angle d rule: poissonLoop.induct)
  case (1 i radius angle d)
  show ?case
  proof (cases "i < NUM_SAMPLES")
    case False
    with "1.prems" show ?thesis
      by (subst poissonLoop.simps) simp
  next
    case True
    let ?v = "vscale (cos angle, sin angle) (radius powr 0.75)"
    have pos: "0 < radius"
      using "1.prems"(1) by (simp add: INV_NUM_SAMPLES_def NUM_SAMPLES_def)
    have le: "radius \<le> 1"
      using "1.prems"(1) True by (simp add: INV_NUM_SAMPLES_def NUM_SAMPLES_def)
    have v: "magnitude ?v \<le> 1"
      using pos le by (simp add: magnitude_unit_scaled powr_le1)
    have r': "radius + radiusStep = real (Suc i + 1) * INV_NUM_SAMPLES"
      using "1.prems"(1) by (simp add: radiusStep_def algebra_simps)
    have len: "length (d[i := ?v]) = NUM_SAMPLES"
      using "1.prems"(2) by simp
    have old: "\<forall>j<Suc i. j < NUM_SAMPLES \<longrightarrow> magnitude (d[i := ?v] ! j) \<le> 1"
      using "1.prems"(2,3) v by (auto simp: nth_list_update less_Suc_eq)
    have "\<forall>j<NUM_SAMPLES. magnitude (poissonLoop (Suc i) (radius + radiusStep) (angle + ANGLE_STEP) (d[i := ?v]) ! j) \<le> 1"
      by (rule "1.IH" [OF True r' len old])
    with True show ?thesis
      by (subst poissonLoop.simps) simp
  qed
qed

lemma initPoissonSamples_length: "length (initPoissonSamples rand seed) = NUM_SAMPLES"
  by (simp add: initPoissonSamples_def length_poissonLoop)

lemma initPoissonSamples_magnitude:
  "j < NUM_SAMPLES \<Longrightarrow> magnitude (initPoissonSamples rand seed ! j) \<le> 1"
  using poissonLoop_magnitude [of INV_NUM_SAMPLES 0 "replicate NUM_SAMPLES (0, 0)" "rand seed * PI2"]
  by (simp add: initPoissonSamples_def)

lemma LIGHT_SIZE_UV_pos: "0 < LIGHT_SIZE_UV"
  by (simp add: LIGHT_SIZE_UV_def LIGHT_WORLD_SIZE_def LIGHT_FRUSTUM_WIDTH_def)

lemma filterRadius_antimono:
  assumes "0 < z" "0 < b1" "b1 \<le> b2"
  shows "filterRadius z b2 \<le> filterRadius z b1"
proof -
  have "(z - b2) * b1 \<le> (z - b1) * b2"
    using assms by (simp add: algebra_simps)
  then have ratio: "(z - b2) / b2 \<le> (z - b1) / b1"
    using assms by (simp add: field_simps)
  have "(z - b2) / b2 * LIGHT_SIZE_UV \<le> (z - b1) / b1 * LIGHT_SIZE_UV"
    by (rule mult_right_mono [OF ratio]) (rule less_imp_le [OF LIGHT_SIZE_UV_pos])
  then have "(z - b2) / b2 * LIGHT_SIZE_UV * NEAR_PLANE \<le> (z - b1) / b1 * LIGHT_SIZE_UV * NEAR_PLANE"
    by (rule mult_right_mono) (simp add: NEAR_PLANE_def)
  then have "(z - b2) / b2 * LIGHT_SIZE_UV * NEAR_PLANE / z \<le> (z - b1) / b1 * LIGHT_SIZE_UV * NEAR_PLANE / z"
    by (rule divide_right_mono) (rule less_imp_le [OF assms(1)])
  then show ?thesis
    by (simp only: filterRadius_def penumbraSize_def Let_def)
qed


lemma blockerLoop_none:
  assumes "\<forall>j. i \<le> j \<and> j < BLOCKER_SEARCH_NUM_SAMPLES \<longrightarrow> \<not> sm (vadd uv (vscale (disk ! j) r)) < z"
  shows "blockerLoop sm disk uv z r i s n f =
           (s, n, f @ map (\<lambda>j. vadd uv (vscale (disk ! j) r)) [i..<BLOCKER_SEARCH_NUM_SAMPLES])"
  using assms
proof (induction sm disk uv z r i s n f rule: blockerLoop.induct)
  case (1 sm disk uv z r i s n f)
  show ?case
  proof (cases "i < BLOCKER_SEARCH_NUM_SAMPLES")
    case False
    then show ?thesis by (subst blockerLoop.simps) simp
  next
    case True
    have here: "\<not> sm (vadd uv (vscale (disk ! i) r)) < z"
      using "1.prems" True by simp
    have rest: "\<forall>j. Suc i \<le> j \<and> j < BLOCKER_SEARCH_NUM_SAMPLES \<longrightarrow> \<not> sm (vadd uv (vscale (disk ! j) r)) < z"
      using "1.prems" by simp
    have "blockerLoop sm disk uv z r (Suc i) s n (f @ [vadd uv (vscale (disk ! i) r)]) =
            (s, n, (f @ [vadd uv (vscale (disk ! i) r)]) @
               map (\<lambda>j. vadd uv (vscale (disk ! j) r)) [Suc i..<BLOCKER_SEARCH_NUM_SAMPLES])"
      using "1.IH"(2) [OF True refl refl here rest] .
    with True here show ?thesis
      by (subst blockerLoop.simps) (simp add: upt_conv_Cons)
  qed
qed

lemma blockerLoop_fetched:
  "snd (snd (blockerLoop sm disk uv z r i s n f)) =
     f @ map (\<lambda>j. vadd uv (vscale (disk ! j) r)) [i..<BLOCKER_SEARCH_NUM_SAMPLES]"
proof (induction sm disk uv z r i s n f rule: blockerLoop.induct)
  case (1 sm disk uv z r i s n f)
  show ?case
    using 1 by (subst blockerLoop.simps) (simp add: upt_conv_Cons Let_def)
qed

lemma blockerLoop_uniform_below:
  assumes "d < z" "i \<le> BLOCKER_SEARCH_NUM_SAMPLES"
  shows "fst (blockerLoop (uniformMap d) disk uv z r i s n f) = s + real (BLOCKER_SEARCH_NUM_SAMPLES - i) * d
       \<and> fst (snd (blockerLoop (uniformMap d) disk uv z r i s n f)) = n + (BLOCKER_SEARCH_NUM_SAMPLES - i)"
  using assms
proof (induction "uniformMap d" disk uv z r i s n f rule: blockerLoop.induct)
  case (1 disk uv z r i s n f)
  show ?case
  proof (cases "i < BLOCKER_SEARCH_NUM_SAMPLES")
    case False
    then show ?thesis using "1.prems" by (subst (1 2) blockerLoop.simps) simp
  next
    case True
    have u: "uniformMap d (vadd uv (vscale (disk ! i) r)) < z"
      using "1.prems" by (simp add: uniformMap_def)
    have "Suc i \<le> BLOCKER_SEARCH_NUM_SAMPLES" using True by simp
    note ih = "1.hyps"(1) [OF True refl refl u "1.prems"(1) this]
    have eq: "real (BLOCKER_SEARCH_NUM_SAMPLES - i) = 1 + real (BLOCKER_SEARCH_NUM_SAMPLES - Suc i)"
      using True by (simp add: Suc_diff_Suc)
    show ?thesis
      using True u ih
      by (subst (1 2) blockerLoop.simps) (simp add: Let_def eq uniformMap_def algebra_simps)
  qed
qed

lemma pcfLoop_fetched:
  "snd (pcfLoop tap sm disk uv z fr i s f) =
     f @ map (\<lambda>j. vadd uv (vscale (tap (disk ! j)) fr)) [i..<PCF_NUM_SAMPLES]"
proof (induction tap sm disk uv z fr i s f rule: pcfLoop.induct)
  case (1 tap sm disk uv z fr i s f)
  show ?case
    using 1 by (subst pcfLoop.simps) (simp add: upt_conv_Cons Let_def)
qed

lemma pcfLoop_bounds:
  "s \<le> fst (pcfLoop tap sm disk uv z fr i s f)
   \<and> fst (pcfLoop tap sm disk uv z fr i s f) \<le> s + real (PCF_NUM_SAMPLES - i)"
proof (induction tap sm disk uv z fr i s f rule: pcfLoop.induct)
  case (1 tap sm disk uv z fr i s f)
  show ?case
  proof (cases "i < PCF_NUM_SAMPLES")
    case False
    then show ?thesis by (subst (1 2) pcfLoop.simps) simp
  next
    case True
    have eq: "real (PCF_NUM_SAMPLES - i) = 1 + real (PCF_NUM_SAMPLES - Suc i)"
      using True by (simp add: Suc_diff_Suc)
    show ?thesis
      using True "1.IH" [OF True refl refl]
      by (subst (1 2) pcfLoop.simps) (auto simp: Let_def eq)
  qed
qed

lemma pcfLoop_uniform_below:
  assumes "d < z"
  shows "fst (pcfLoop tap (uniformMap d) disk uv z fr i s f) = s"
  using assms
proof (induction tap "uniformMap d" disk uv z fr i s f rule: pcfLoop.induct)
  case (1 tap disk uv z fr i s f)
  show ?case
    using 1 by (subst pcfLoop.simps) (simp add: Let_def uniformMap_def)
qed


lemma findBlocker_none:
  assumes "\<forall>j<BLOCKER_SEARCH_NUM_SAMPLES. \<not> sm (vadd uv (vscale (disk ! j) (searchRadius z))) < z"
  shows "findBlocker sm disk uv z =
           (- 1, map (\<lambda>j. vadd uv (vscale (disk ! j) (searchRadius z))) [0..<BLOCKER_SEARCH_NUM_SAMPLES])"
  using assms by (simp add: findBlocker_def blockerLoop_none)

lemma PCSS_none:
  assumes "\<forall>i<NUM_SAMPLES. \<not> sm (blockerTap rand uv z i) < z"
  shows "PCSS rand sm (uv, z) = (1, map (blockerTap rand uv z) [0..<NUM_SAMPLES])"
proof -
  have "findBlocker sm (initPoissonSamples rand uv) uv z =
          (- 1, map (blockerTap rand uv z) [0..<NUM_SAMPLES])"
    using assms findBlocker_none [of sm uv "initPoissonSamples rand uv" z]
    by (simp add: blockerTap_def BLOCKER_SEARCH_NUM_SAMPLES_def)
  then show ?thesis
    by (simp add: PCSS_def)
qed

lemma fst_PCF_Filter:
  "fst (PCF_Filter sm disk uv z fr) =
     fst (pcfLoop neg_yx sm disk uv z fr 0
            (fst (pcfLoop (\<lambda>p. p) sm disk uv z fr 0 0 []))
            (snd (pcfLoop (\<lambda>p. p) sm disk uv z fr 0 0 [])))
       / (2 * real PCF_NUM_SAMPLES)"
  by (simp add: PCF_Filter_def case_prod_beta)

lemma fst_PCSS:
  "fst (PCSS rand sm (uv, z)) =
     (if fst (findBlocker sm (initPoissonSamples rand uv) uv z) = - 1 then 1
      else fst (PCF_Filter sm (initPoissonSamples rand uv) uv z
                  (filterRadius z (fst (findBlocker sm (initPoissonSamples rand uv) uv z)))))"
  by (simp add: PCSS_def Let_def case_prod_beta)

lemma PCF_Filter_bounds:
  "0 \<le> fst (PCF_Filter sm disk uv z fr) \<and> fst (PCF_Filter sm disk uv z fr) \<le> 1"
proof -
  let ?l1 = "pcfLoop (\<lambda>p. p) sm disk uv z fr 0 0 []"
  let ?s2 = "fst (pcfLoop neg_yx sm disk uv z fr 0 (fst ?l1) (snd ?l1))"
  have b1: "0 \<le> fst ?l1 \<and> fst ?l1 \<le> real PCF_NUM_SAMPLES"
    using pcfLoop_bounds [of 0 "\<lambda>p. p" sm disk uv z fr 0 "[]"] by simp
  have b2: "fst ?l1 \<le> ?s2 \<and> ?s2 \<le> fst ?l1 + real PCF_NUM_SAMPLES"
    using pcfLoop_bounds [of "fst ?l1" neg_yx sm disk uv z fr 0 "snd ?l1"] by simp
  have "0 \<le> ?s2" "?s2 \<le> 2 * real PCF_NUM_SAMPLES"
    using b1 b2 by simp_all
  moreover have "0 < 2 * real PCF_NUM_SAMPLES"
    by (simp add: PCF_NUM_SAMPLES_def NUM_SAMPLES_def)
  ultimately show ?thesis
    unfolding fst_PCF_Filter by (simp add: divide_le_eq)
qed

lemma PCSS_bounds: "0 \<le> fst (PCSS rand sm (uv, z)) \<and> fst (PCSS rand sm (uv, z)) \<le> 1"
  using PCF_Filter_bounds by (simp add: fst_PCSS)

lemma findBlocker_uniform_below:
  assumes "d < z"
  shows "fst (findBlocker (uniformMap d) disk uv z) = d"
proof -
  let ?l = "blockerLoop (uniformMap d) disk uv z (searchRadius z) 0 0 0 []"
  have "fst ?l = real BLOCKER_SEARCH_NUM_SAMPLES * d" "fst (snd ?l) = BLOCKER_SEARCH_NUM_SAMPLES"
    using blockerLoop_uniform_below [OF assms, of 0 disk uv "searchRadius z" 0 0 "[]"] by simp_all
  then show ?thesis
    by (simp add: findBlocker_def case_prod_beta BLOCKER_SEARCH_NUM_SAMPLES_def NUM_SAMPLES_def)
qed

lemma PCF_Filter_uniform_below:
  assumes "d < z"
  shows "fst (PCF_Filter (uniformMap d) disk uv z fr) = 0"
  by (simp add: fst_PCF_Filter pcfLoop_uniform_below [OF assms])

lemma PCSS_uniform_below:
  assumes "d < z" "d \<noteq> - 1"
  shows "fst (PCSS rand (uniformMap d) (uv, z)) = 0"
  using assms(2)
  by (simp add: fst_PCSS findBlocker_uniform_below [OF assms(1)] PCF_Filter_uniform_below [OF assms(1)])


text \<open>The fetches: 17 when the blocker search finds nothing, 17 + 34 otherwise.\<close>

lemma findBlocker_fetched:
  "snd (findBlocker sm disk uv z) =
     map (\<lambda>j. vadd uv (vscale (disk ! j) (searchRadius z))) [0..<BLOCKER_SEARCH_NUM_SAMPLES]"
  using blockerLoop_fetched [of sm disk uv z "searchRadius z" 0 0 0 "[]"]
  by (simp add: findBlocker_def case_prod_beta)

lemma PCF_Filter_fetched:
  "snd (PCF_Filter sm disk uv z fr) =
     map (\<lambda>j. vadd uv (vscale (disk ! j) fr)) [0..<PCF_NUM_SAMPLES]
     @ map (\<lambda>j. vadd uv (vscale (neg_yx (disk ! j)) fr)) [0..<PCF_NUM_SAMPLES]"
  by (simp add: PCF_Filter_def case_prod_beta pcfLoop_fetched)

lemma PCSS_fetch_count:
  "length (snd (PCSS rand sm (uv, z))) =
     (if fst (findBlocker sm (initPoissonSamples rand uv) uv z) = - 1 then 17 else 51)"
  by (simp add: PCSS_def Let_def case_prod_beta findBlocker_fetched PCF_Filter_fetched
      BLOCKER_SEARCH_NUM_SAMPLES_def PCF_NUM_SAMPLES_def NUM_SAMPLES_def)

subsection \<open>The claims about the filter\<close>

lemma poissonLoop_nth:
  assumes "length d = NUM_SAMPLES" and "j < NUM_SAMPLES"
  shows "poissonLoop i radius angle d ! j =
           (if j < i then d ! j
            else vscale (cos (angle + real (j - i) * ANGLE_STEP), sin (angle + real (j - i) * ANGLE_STEP))
                   ((radius + real (j - i) * radiusStep) powr 0.75))"
  using assms
proof (induction i radius angle d rule: poissonLoop.induct)
  case (1 i radius angle d)
  show ?case
  proof (cases "i < NUM_SAMPLES")
    case False
    with "1.prems" show ?thesis
      by (subst poissonLoop.simps) simp
  next
    case True
    let ?v = "vscale (cos angle, sin angle) (radius powr 0.75)"
    have len: "length (d[i := ?v]) = NUM_SAMPLES"
      using "1.prems"(1) by simp
    note ih = "1.IH" [OF True len "1.prems"(2)]
    have unfold: "poissonLoop i radius angle d =
        poissonLoop (Suc i) (radius + radiusStep) (angle + ANGLE_STEP) (d[i := ?v])"
      using True by (subst poissonLoop.simps) simp
    show ?thesis
    proof (cases "j < i")
      case True
      then show ?thesis
        using ih by (simp add: unfold)
    next
      case False
      show ?thesis
      proof (cases "j = i")
        case True
        then show ?thesis
          using ih "1.prems" by (simp add: unfold)
      next
        case False
        with \<open>\<not> j < i\<close> have gt: "i < j" by simp
        then have "real (j - i) = 1 + real (j - Suc i)"
          by (simp add: Suc_diff_Suc)
        then show ?thesis
          using ih gt by (simp add: unfold algebra_simps)
      qed
    qed
  qed
qed

lemma poissonLoop_from_start:
  assumes "length d = NUM_SAMPLES" and "i < NUM_SAMPLES"
  shows "poissonLoop 0 INV_NUM_SAMPLES (rand seed * PI2) d ! i = stepA_offset rand seed i"
proof -
  have "INV_NUM_SAMPLES + real i * radiusStep = real (i + 1) * INV_NUM_SAMPLES"
    by (simp add: radiusStep_def algebra_simps)
  then show ?thesis
    using poissonLoop_nth [OF assms, of 0 INV_NUM_SAMPLES "rand seed * PI2"]
    by (simp add: stepA_offset_def)
qed

lemma poissonLoop_eq_map:
  assumes "length d = NUM_SAMPLES"
  shows "poissonLoop 0 INV_NUM_SAMPLES (rand seed * PI2) d = map (stepA_offset rand seed) [0..<NUM_SAMPLES]"
  by (rule nth_equalityI) (simp_all add: length_poissonLoop assms poissonLoop_from_start)

lemma initPoissonSamples_eq_map:
  "initPoissonSamples rand seed = map (stepA_offset rand seed) [0..<NUM_SAMPLES]"
  by (simp add: initPoissonSamples_def poissonLoop_eq_map)

lemma stepA_offset_magnitude:
  assumes "i < NUM_SAMPLES"
  shows "magnitude (stepA_offset rand seed i) = (real (i + 1) * INV_NUM_SAMPLES) powr 0.75"
    and "magnitude (stepA_offset rand seed i) \<le> 1"
    and "0 < magnitude (stepA_offset rand seed i)"
proof -
  have pos: "0 < real (i + 1) * INV_NUM_SAMPLES"
    by (simp add: INV_NUM_SAMPLES_def NUM_SAMPLES_def)
  have le: "real (i + 1) * INV_NUM_SAMPLES \<le> 1"
    using assms by (simp add: INV_NUM_SAMPLES_def NUM_SAMPLES_def)
  show m: "magnitude (stepA_offset rand seed i) = (real (i + 1) * INV_NUM_SAMPLES) powr 0.75"
    by (simp add: stepA_offset_def magnitude_unit_scaled)
  show "magnitude (stepA_offset rand seed i) \<le> 1"
    unfolding m using pos le by (simp add: powr_le1)
  show "0 < magnitude (stepA_offset rand seed i)"
    unfolding m using pos by (simp add: INV_NUM_SAMPLES_def NUM_SAMPLES_def)
qed

text \<open>
  C9. Whatever the array \<open>poissonDisk\<close> of 17 entries held before, the loop of
  \<open>initPoissonSamples\<close> leaves exactly 17 offsets in it, and they are the ones of the
  spec's Step A: entry \<open>i\<close> is \<open>(cos angle, sin angle) \<cdot> radius^0.75\<close> for
  \<open>angle = rand seed \<cdot> 2\<pi> + i \<cdot> angleStep\<close> and \<open>radius = (i + 1) / 17\<close>. Its
  Euclidean magnitude is \<open>radius^0.75\<close>, above 0 and at most 1. The sequence depends
  on the seed (and \<open>rand\<close>) only: an identical seed yields an identical sequence.
\<close>

theorem initPoissonSamples_offsets:
  assumes "length poissonDisk = 17"
  shows "length (poissonLoop 0 INV_NUM_SAMPLES (rand seed * PI2) poissonDisk) = 17
       \<and> poissonLoop 0 INV_NUM_SAMPLES (rand seed * PI2) poissonDisk = initPoissonSamples rand seed
       \<and> initPoissonSamples rand seed = map (stepA_offset rand seed) [0..<17]
       \<and> length (initPoissonSamples rand seed) = 17
       \<and> (i < 17 \<longrightarrow>
            initPoissonSamples rand seed ! i = stepA_offset rand seed i
            \<and> magnitude (initPoissonSamples rand seed ! i) = (real (i + 1) / 17) powr 0.75
            \<and> 0 < magnitude (initPoissonSamples rand seed ! i)
            \<and> magnitude (initPoissonSamples rand seed ! i) \<le> 1)
       \<and> (seed = seed' \<longrightarrow> initPoissonSamples rand seed = initPoissonSamples rand seed')"
proof -
  have len: "length poissonDisk = NUM_SAMPLES"
    using assms by (simp add: NUM_SAMPLES_def)
  have a: "poissonLoop 0 INV_NUM_SAMPLES (rand seed * PI2) poissonDisk = initPoissonSamples rand seed"
    by (simp add: poissonLoop_eq_map [OF len] initPoissonSamples_eq_map)
  have b: "initPoissonSamples rand seed ! i = stepA_offset rand seed i" if "i < 17"
    using that by (simp add: initPoissonSamples_eq_map NUM_SAMPLES_def)
  have c: "magnitude (stepA_offset rand seed i) = (real (i + 1) / 17) powr 0.75"
    "0 < magnitude (stepA_offset rand seed i)" "magnitude (stepA_offset rand seed i) \<le> 1"
    if "i < 17"
    using that stepA_offset_magnitude [of i rand seed]
    by (simp_all add: NUM_SAMPLES_def INV_NUM_SAMPLES_def)
  show ?thesis
    using a b c initPoissonSamples_eq_map [of rand seed] initPoissonSamples_length [of rand seed]
    by (simp add: NUM_SAMPLES_def)
qed

theorem initPoissonSamples_offsets_witness:
  "length (replicate 17 (5, 5) :: vec2 list) = 17
   \<and> poissonLoop 0 INV_NUM_SAMPLES (rand0 (0, 0) * PI2) (replicate 17 (5, 5)) = initPoissonSamples rand0 (0, 0)
   \<and> initPoissonSamples rand0 (0, 0) ! 16 = stepA_offset rand0 (0, 0) 16
   \<and> magnitude (initPoissonSamples rand0 (0, 0) ! 16) = 1
   \<and> initPoissonSamples rand0 (0, 0) ! 0 = ((1 / 17) powr (3 / 4), 0)"
proof -
  have l: "length (replicate 17 (5, 5) :: vec2 list) = 17" by simp
  have z: "stepA_offset rand0 (0, 0) 0 = ((1 / 17) powr (3 / 4), 0)"
    by (simp add: stepA_offset_def rand0_def vscale_def INV_NUM_SAMPLES_def NUM_SAMPLES_def)
  show ?thesis
    using initPoissonSamples_offsets [OF l, of rand0 "(0, 0)" 16 "(0, 0)"] initPoissonSamples_offsets [OF l, of rand0 "(0, 0)" 0 "(0, 0)"] z
    by simp
qed


text \<open>
  C7. With \<open>zReceiver > 0\<close> fixed, decreasing \<open>avgBlockerDepth\<close> over positive values
  does not decrease \<open>filterRadius\<close>, where \<open>filterRadius\<close> is
  \<open>penumbraRatio \<cdot> LIGHT_SIZE_UV \<cdot> NEAR_PLANE / zReceiver\<close> and \<open>penumbraRatio\<close> is
  \<open>(zReceiver - avgBlockerDepth) / avgBlockerDepth\<close>.
\<close>

theorem filterRadius_monotone:
  assumes "0 < zReceiver" and "0 < nearer" and "nearer \<le> avgBlockerDepth"
  shows "filterRadius zReceiver avgBlockerDepth \<le> filterRadius zReceiver nearer
       \<and> filterRadius zReceiver avgBlockerDepth =
           (zReceiver - avgBlockerDepth) / avgBlockerDepth * LIGHT_SIZE_UV * NEAR_PLANE / zReceiver"
  using filterRadius_antimono [OF assms]
  by (simp add: filterRadius_def penumbraSize_def)

theorem filterRadius_monotone_witness:
  "(0 :: real) < 1 / 2 \<and> (0 :: real) < 1 / 8 \<and> (1 / 8 :: real) \<le> 1 / 4
   \<and> filterRadius (1 / 2) (1 / 4) \<le> filterRadius (1 / 2) (1 / 8)"
  using filterRadius_monotone [of "1 / 2" "1 / 8" "1 / 4"]
  by simp

text \<open>
  C6. If the blocker search finds no blocker (at each of its 17 fetches the depth is not
  below \<open>zReceiver\<close>), \<open>PCSS\<close> returns 1.0 at once: the fetches it has made are the 17 of
  the blocker search and none of the filtering pass. In particular a shadow map of
  depth 1.0 everywhere gives 1.0 at \<open>zReceiver = 0.5\<close>, for every \<open>(u, v)\<close>.
\<close>

theorem PCSS_no_blocker:
  "((\<forall>i<NUM_SAMPLES. \<not> shadowMap (blockerTap rand uv zReceiver i) < zReceiver)
      \<longrightarrow> PCSS rand shadowMap (uv, zReceiver) =
            (1.0, map (blockerTap rand uv zReceiver) [0..<NUM_SAMPLES]))
   \<and> fst (PCSS rand (uniformMap 1.0) ((u, v), 0.5)) = 1.0"
proof -
  have "\<forall>i<NUM_SAMPLES. \<not> uniformMap 1.0 (blockerTap rand (u, v) 0.5 i) < 0.5"
    by (simp add: uniformMap_def)
  then have "PCSS rand (uniformMap 1.0) ((u, v), 0.5) =
               (1, map (blockerTap rand (u, v) 0.5) [0..<NUM_SAMPLES])"
    by (rule PCSS_none)
  then show ?thesis
    using PCSS_none [of shadowMap rand uv zReceiver] by simp
qed

theorem PCSS_no_blocker_witness:
  "\<not> uniformMap 1 (blockerTap rand0 (0, 0) (1 / 2) 0) < 1 / 2
   \<and> PCSS rand0 (uniformMap 1) ((0, 0), 1 / 2) =
       (1, map (blockerTap rand0 (0, 0) (1 / 2)) [0..<NUM_SAMPLES])
   \<and> length (snd (PCSS rand0 (uniformMap 1) ((0, 0), 1 / 2))) = 17"
  using PCSS_no_blocker [of "uniformMap 1" rand0 "(0, 0)" "1 / 2" 0 0]
  by (simp add: uniformMap_def NUM_SAMPLES_def)

lemma searchRadius_near_plane:
  assumes "0 < z" and "z \<le> NEAR_PLANE"
  shows "searchRadius z \<le> 0"
proof -
  have "LIGHT_SIZE_UV * (z - NEAR_PLANE) \<le> 0"
    using assms(2) LIGHT_SIZE_UV_pos by (simp add: mult_le_0_iff)
  then show ?thesis
    using assms(1) by (simp add: searchRadius_def divide_le_0_iff)
qed

lemma blockerLoop_depths:
  "fst (blockerLoop sm disk uv z r i s n f) =
     s + sum_list (filter (\<lambda>d. d < z) (map (\<lambda>j. sm (vadd uv (vscale (disk ! j) r))) [i..<BLOCKER_SEARCH_NUM_SAMPLES]))
   \<and> fst (snd (blockerLoop sm disk uv z r i s n f)) =
     n + length (filter (\<lambda>d. d < z) (map (\<lambda>j. sm (vadd uv (vscale (disk ! j) r))) [i..<BLOCKER_SEARCH_NUM_SAMPLES]))"
proof (induction sm disk uv z r i s n f rule: blockerLoop.induct)
  case (1 sm disk uv z r i s n f)
  show ?case
  proof (cases "i < BLOCKER_SEARCH_NUM_SAMPLES")
    case False
    then show ?thesis by (subst (1 2) blockerLoop.simps) simp
  next
    case True
    show ?thesis
    proof (cases "sm (vadd uv (vscale (disk ! i) r)) < z")
      case below: True
      show ?thesis
        using True below "1.IH"(1) [OF True refl refl below]
        by (subst (1 2) blockerLoop.simps) (simp add: Let_def upt_conv_Cons)
    next
      case above: False
      show ?thesis
        using True above "1.IH"(2) [OF True refl refl above]
        by (subst (1 2) blockerLoop.simps) (simp add: Let_def upt_conv_Cons)
    qed
  qed
qed

lemma pcfLoop_count:
  "fst (pcfLoop tap sm disk uv z fr i s f) =
     s + real (length (filter (\<lambda>p. z \<le> sm p)
                 (map (\<lambda>j. vadd uv (vscale (tap (disk ! j)) fr)) [i..<PCF_NUM_SAMPLES])))"
proof (induction tap sm disk uv z fr i s f rule: pcfLoop.induct)
  case (1 tap sm disk uv z fr i s f)
  show ?case
  proof (cases "i < PCF_NUM_SAMPLES")
    case False
    then show ?thesis by (subst pcfLoop.simps) simp
  next
    case True
    show ?thesis
      using True "1.IH" [OF True refl refl]
      by (subst pcfLoop.simps) (simp add: Let_def upt_conv_Cons)
  qed
qed

lemma fst_findBlocker:
  "fst (findBlocker sm (initPoissonSamples rand uv) uv z) =
     (if blockerDepths rand sm uv z = [] then - 1
      else sum_list (blockerDepths rand sm uv z) / real (length (blockerDepths rand sm uv z)))"
proof -
  let ?l = "blockerLoop sm (initPoissonSamples rand uv) uv z (searchRadius z) 0 0 0 []"
  have "fst ?l = sum_list (blockerDepths rand sm uv z)"
    and "fst (snd ?l) = length (blockerDepths rand sm uv z)"
    using blockerLoop_depths [of sm "initPoissonSamples rand uv" uv z "searchRadius z" 0 0 0 "[]"]
    by (simp_all add: blockerDepths_def blockerTap_def BLOCKER_SEARCH_NUM_SAMPLES_def)
  then show ?thesis
    by (simp add: findBlocker_def case_prod_beta)
qed

lemma fst_PCF_Filter_lit:
  "fst (PCF_Filter sm (initPoissonSamples rand uv) uv z fr) =
     real (length (litTaps sm z (filterTaps rand uv fr))) / 34"
  by (simp add: fst_PCF_Filter pcfLoop_count litTaps_def filterTaps_def PCF_NUM_SAMPLES_def
      NUM_SAMPLES_def)

lemma fst_PCSS_spec:
  "fst (PCSS rand sm (uv, z)) =
     (if blockerDepths rand sm uv z = []
         \<or> sum_list (blockerDepths rand sm uv z) / real (length (blockerDepths rand sm uv z)) = - 1
      then 1
      else real (length (litTaps sm z (filterTaps rand uv
                   (filterRadius z (sum_list (blockerDepths rand sm uv z)
                                    / real (length (blockerDepths rand sm uv z))))))) / 34)"
  by (simp add: fst_PCSS fst_findBlocker fst_PCF_Filter_lit)

lemma blockerDepths_nonneg_map:
  assumes "z \<le> 0" and "\<forall>p. 0 \<le> sm p"
  shows "blockerDepths rand sm uv z = []"
proof -
  have "\<not> sm p < z" for p
    using assms(1) assms(2) [rule_format, of p] by simp
  then show ?thesis
    by (simp add: blockerDepths_def)
qed

text \<open>
  C2, as the code has it. \<open>PCSS\<close> has no case for \<open>zReceiver \<le> NEAR_PLANE\<close>: it runs
  the blocker search as for any other input, with a search radius that is at most 0
  when \<open>zReceiver\<close> is positive. It returns 1.0 when the search finds no depth below
  \<open>zReceiver\<close>, or when the average of the depths it finds is the marker \<open>-1.0\<close>;
  otherwise it returns the fraction of lit taps among the 34 of the filtering pass, taken
  at the filter radius of that average. So the attenuation lies in \<open>[0, 1]\<close>. It is 1.0
  when \<open>zReceiver \<le> 0\<close> and the shadow map has no negative depth. On a shadow map
  whose depth is everywhere the same value \<open>d\<close> below \<open>zReceiver\<close> it is 0.0, unless
  \<open>d\<close> is the marker \<open>-1.0\<close>, where it is 1.0.
\<close>

theorem PCSS_near_plane:
  assumes "zReceiver \<le> NEAR_PLANE"
  shows "(0 < zReceiver \<longrightarrow> searchRadius zReceiver \<le> 0)
       \<and> fst (PCSS rand shadowMap (uv, zReceiver)) =
           (if blockerDepths rand shadowMap uv zReceiver = []
               \<or> sum_list (blockerDepths rand shadowMap uv zReceiver)
                   / real (length (blockerDepths rand shadowMap uv zReceiver)) = - 1.0
            then 1.0
            else real (length (litTaps shadowMap zReceiver (filterTaps rand uv
                         (filterRadius zReceiver
                            (sum_list (blockerDepths rand shadowMap uv zReceiver)
                             / real (length (blockerDepths rand shadowMap uv zReceiver))))))) / 34)
       \<and> 0 \<le> fst (PCSS rand shadowMap (uv, zReceiver))
       \<and> fst (PCSS rand shadowMap (uv, zReceiver)) \<le> 1
       \<and> ((\<forall>i<NUM_SAMPLES. \<not> shadowMap (blockerTap rand uv zReceiver i) < zReceiver)
            \<longrightarrow> fst (PCSS rand shadowMap (uv, zReceiver)) = 1.0)
       \<and> (zReceiver \<le> 0 \<and> (\<forall>p. 0 \<le> shadowMap p) \<longrightarrow> fst (PCSS rand shadowMap (uv, zReceiver)) = 1.0)
       \<and> (d < zReceiver \<and> d \<noteq> - 1.0 \<longrightarrow> fst (PCSS rand (uniformMap d) (uv, zReceiver)) = 0.0)
       \<and> (- 1.0 < zReceiver \<longrightarrow> fst (PCSS rand (uniformMap (- 1.0)) (uv, zReceiver)) = 1.0)"
proof -
  have spec: "fst (PCSS rand shadowMap (uv, zReceiver)) =
           (if blockerDepths rand shadowMap uv zReceiver = []
               \<or> sum_list (blockerDepths rand shadowMap uv zReceiver)
                   / real (length (blockerDepths rand shadowMap uv zReceiver)) = - 1.0
            then 1.0
            else real (length (litTaps shadowMap zReceiver (filterTaps rand uv
                         (filterRadius zReceiver
                            (sum_list (blockerDepths rand shadowMap uv zReceiver)
                             / real (length (blockerDepths rand shadowMap uv zReceiver))))))) / 34)"
    using fst_PCSS_spec [of rand shadowMap uv zReceiver] by simp
  have nonneg: "fst (PCSS rand shadowMap (uv, zReceiver)) = 1"
    if "zReceiver \<le> 0" "\<forall>p. 0 \<le> shadowMap p"
    using blockerDepths_nonneg_map [OF that] by (simp add: fst_PCSS_spec)
  have marker: "fst (PCSS rand (uniformMap (- 1)) (uv, zReceiver)) = 1" if "- 1 < zReceiver"
    using findBlocker_uniform_below [OF that] by (simp add: fst_PCSS)
  show ?thesis
    using spec nonneg marker
      PCSS_bounds [of rand shadowMap uv zReceiver] PCSS_none [of shadowMap rand uv zReceiver]
      PCSS_uniform_below [of d zReceiver rand uv] searchRadius_near_plane [OF _ assms]
    by simp
qed

theorem PCSS_near_plane_witness:
  "(1 / 2 :: real) \<le> NEAR_PLANE
   \<and> searchRadius (1 / 2) \<le> 0
   \<and> fst (PCSS rand0 (uniformMap (1 / 4)) ((0, 0), 1 / 2)) = 0
   \<and> fst (PCSS rand0 (uniformMap 1) ((0, 0), 1 / 2)) = 1
   \<and> fst (PCSS rand0 (uniformMap (- 1)) ((0, 0), 1 / 2)) = 1"
proof -
  have near: "(1 / 2 :: real) \<le> NEAR_PLANE"
    by (simp add: NEAR_PLANE_def)
  show ?thesis
    using near PCSS_near_plane [OF near, of rand0 "uniformMap (1 / 4)" "(0, 0)" "1 / 4"]
      PCSS_near_plane [OF near, of rand0 "uniformMap 1" "(0, 0)" "1 / 4"]
    by (simp add: uniformMap_def)
qed

text \<open>
  C2 as stated fails. At \<open>zReceiver = 0.5 \<le> NEAR_PLANE\<close>, on a shadow map of depth
  0.25 everywhere, the returned attenuation is not 1.0 (it is 0.0). On a shadow map of
  depth 0 everywhere the average blocker depth is 0, the divisor of \<open>penumbraSize\<close> (in
  floating point the quotient is not finite), and the attenuation is not 1.0 either.
\<close>

theorem PCSS_near_plane_not_lit:
  "(1 / 2 :: real) \<le> NEAR_PLANE
   \<and> fst (PCSS rand0 (uniformMap (1 / 4)) ((0, 0), 1 / 2)) \<noteq> 1.0
   \<and> fst (findBlocker (uniformMap 0) (initPoissonSamples rand0 (0, 0)) (0, 0) (1 / 2)) = 0
   \<and> fst (PCSS rand0 (uniformMap 0) ((0, 0), 1 / 2)) \<noteq> 1.0"
  using PCSS_uniform_below [of "1 / 4" "1 / 2" rand0 "(0, 0)"]
    PCSS_uniform_below [of 0 "1 / 2" rand0 "(0, 0)"]
    findBlocker_uniform_below [of 0 "1 / 2" "initPoissonSamples rand0 (0, 0)" "(0, 0)"]
  by (simp add: NEAR_PLANE_def)

section \<open>Properties of the application\<close>

subsection \<open>What the helpers leave unchanged\<close>

lemmas scene_defs = add_new_def scene_add_def new_WorldManager_def new_Player_def new_Background_def

lemma log_call_fields [simp]:
  "this_gameStarted (log_call c s) = this_gameStarted s"
  "this_gameOver (log_call c s) = this_gameOver s"
  "document (log_call c s) = document s"
  "this_previousRAF (log_call c s) = this_previousRAF s"
  "this_scene (log_call c s) = this_scene s"
  "this_camera (log_call c s) = this_camera s"
  "this_player (log_call c s) = this_player s"
  "this_world (log_call c s) = this_world s"
  "this_background (log_call c s) = this_background s"
  "calls (log_call c s) = calls s @ [c]"
  by (simp_all add: log_call_def)

lemma invoke_fields [simp]:
  "this_gameStarted (invoke f s) = this_gameStarted s"
  "this_gameOver (invoke f s) = this_gameOver s"
  "document (invoke f s) = document s"
  "this_previousRAF (invoke f s) = this_previousRAF s"
  "this_camera (invoke f s) = this_camera s"
  "calls (invoke f s) = calls s"
  by (simp_all add: invoke_def Let_def)

lemma InitializeScene_fields [simp]:
  "this_gameStarted (InitializeScene s) = this_gameStarted s"
  "this_gameOver (InitializeScene s) = this_gameOver s"
  "document (InitializeScene s) = document s"
  "this_previousRAF (InitializeScene s) = this_previousRAF s"
  "this_camera (InitializeScene s) = this_camera s"
  "calls (InitializeScene s) = calls s"
  by (simp_all add: InitializeScene_def Let_def scene_defs)

lemma ResetPlayer_fields [simp]:
  "this_gameStarted (ResetPlayer s) = this_gameStarted s"
  "this_gameOver (ResetPlayer s) = this_gameOver s"
  "document (ResetPlayer s) = document s"
  "this_previousRAF (ResetPlayer s) = this_previousRAF s"
  "this_camera (ResetPlayer s) = this_camera s"
  "calls (ResetPlayer s) = calls s"
  by (simp_all add: ResetPlayer_def Let_def scene_defs split: option.splits)

subsection \<open>A frame\<close>

lemma session_state_Playing:
  "(session_state s = Playing) = (this_gameStarted s \<and> \<not> this_gameOver s)"
  by (simp add: session_state_def)

lemma Step_not_playing:
  "\<not> (this_gameStarted s \<and> \<not> this_gameOver s) \<Longrightarrow> Step env d s = Returned s"
  by (auto simp: Step_def)

lemma Step_Returned_calls:
  assumes "Step env d s = Returned s'" and "this_gameStarted s" and "\<not> this_gameOver s"
  shows "calls s' = calls s @ [PlayerUpdate d, WorldUpdate d, BackgroundUpdate d]"
  using assms
  by (auto simp: Step_def and_then_def call_Player_Update_def call_World_Update_def
      call_Background_Update_def Let_def split: option.splits if_splits)

lemma Step_previousRAF:
  "this_previousRAF (state_of (Step env d s)) = this_previousRAF s"
  by (simp add: Step_def and_then_def call_Player_Update_def call_World_Update_def
      call_Background_Update_def Let_def split: option.splits)

lemma Step_started:
  "this_gameStarted (state_of (Step env d s)) = this_gameStarted s"
  by (simp add: Step_def and_then_def call_Player_Update_def call_World_Update_def
      call_Background_Update_def Let_def split: option.splits)

lemma Step_over:
  "this_gameOver (state_of (Step env d s)) \<Longrightarrow> this_gameOver s \<or> this_gameStarted s"
  by (simp add: Step_def and_then_def call_Player_Update_def call_World_Update_def
      call_Background_Update_def Let_def split: option.splits if_splits)

lemma before_Step_fields [simp]:
  "this_gameStarted (before_Step t s) = this_gameStarted s"
  "this_gameOver (before_Step t s) = this_gameOver s"
  "this_scene (before_Step t s) = this_scene s"
  "this_camera (before_Step t s) = this_camera s"
  "calls (before_Step t s) = calls s @ [RequestAnimationFrame]"
  "this_previousRAF (before_Step t s) = Some (case this_previousRAF s of None \<Rightarrow> t | Some p \<Rightarrow> p)"
  by (simp_all add: before_Step_def RAF_def)

lemma frame_unfold:
  "frame env t s =
     and_then (Step env (elapsed t s) (before_Step t s)) (\<lambda>s3.
       Returned ((log_call (Render (this_scene s3) (this_camera s3)) s3)\<lparr>this_previousRAF := Some t\<rparr>))"
  by (simp add: frame_def elapsed_def before_Step_def Let_def)

lemma frame_Returned:
  assumes "frame env t s = Returned s'"
  obtains s3 where "Step env (elapsed t s) (before_Step t s) = Returned s3"
    and "s' = (log_call (Render (this_scene s3) (this_camera s3)) s3)\<lparr>this_previousRAF := Some t\<rparr>"
  using assms
  by (cases "Step env (elapsed t s) (before_Step t s)") (auto simp: frame_unfold and_then_def)

lemma frame_Returned_calls:
  assumes "frame env t s = Returned s'"
  shows "calls s' = calls s @ RequestAnimationFrame #
           (if session_state s = Playing
            then [PlayerUpdate (elapsed t s), WorldUpdate (elapsed t s), BackgroundUpdate (elapsed t s)]
            else []) @ [Render (this_scene s') (this_camera s')]"
proof -
  from assms obtain s3 where
    step: "Step env (elapsed t s) (before_Step t s) = Returned s3"
    and s': "s' = (log_call (Render (this_scene s3) (this_camera s3)) s3)\<lparr>this_previousRAF := Some t\<rparr>"
    by (rule frame_Returned)
  show ?thesis
  proof (cases "session_state s = Playing")
    case True
    then have "this_gameStarted (before_Step t s)" "\<not> this_gameOver (before_Step t s)"
      by (simp_all add: session_state_Playing)
    from Step_Returned_calls [OF step this]
    show ?thesis using True by (simp add: s')
  next
    case False
    then have "Step env (elapsed t s) (before_Step t s) = Returned (before_Step t s)"
      by (intro Step_not_playing) (simp add: session_state_Playing)
    with step have "s3 = before_Step t s" by simp
    then show ?thesis using False by (simp add: s')
  qed
qed

lemma frame_not_playing:
  assumes "session_state s \<noteq> Playing"
  shows "is_Returned (frame env t s)"
    and "calls (state_of (frame env t s)) =
           calls s @ [RequestAnimationFrame, Render (this_scene s) (this_camera s)]"
proof -
  have "\<not> (this_gameStarted (before_Step t s) \<and> \<not> this_gameOver (before_Step t s))"
    using assms by (simp add: session_state_Playing)
  then have "Step env (elapsed t s) (before_Step t s) = Returned (before_Step t s)"
    by (rule Step_not_playing)
  then have f: "frame env t s =
      Returned ((log_call (Render (this_scene s) (this_camera s)) (before_Step t s))\<lparr>this_previousRAF := Some t\<rparr>)"
    by (simp add: frame_unfold and_then_def)
  show "is_Returned (frame env t s)" by (simp add: f)
  show "calls (state_of (frame env t s)) =
           calls s @ [RequestAnimationFrame, Render (this_scene s) (this_camera s)]"
    by (simp add: f)
qed

lemma frame_previousRAF:
  "this_previousRAF (state_of (frame env t s)) =
     (if is_Returned (frame env t s) then Some t
      else Some (case this_previousRAF s of None \<Rightarrow> t | Some p \<Rightarrow> p))"
  using Step_previousRAF [of env "elapsed t s" "before_Step t s"]
  by (cases "Step env (elapsed t s) (before_Step t s)") (simp_all add: frame_unfold and_then_def)

lemma frame_flags:
  "this_gameStarted (state_of (frame env t s)) = this_gameStarted s"
  "this_gameOver (state_of (frame env t s)) \<Longrightarrow> this_gameOver s \<or> this_gameStarted s"
proof -
  have st: "this_gameStarted (state_of (frame env t s)) =
              this_gameStarted (state_of (Step env (elapsed t s) (before_Step t s)))"
    and ov: "this_gameOver (state_of (frame env t s)) =
              this_gameOver (state_of (Step env (elapsed t s) (before_Step t s)))"
    by (cases "Step env (elapsed t s) (before_Step t s)"; simp add: frame_unfold and_then_def)+
  show "this_gameStarted (state_of (frame env t s)) = this_gameStarted s"
    by (simp add: st Step_started)
  show "this_gameOver (state_of (frame env t s)) \<Longrightarrow> this_gameOver s \<or> this_gameStarted s"
    using Step_over [of env "elapsed t s" "before_Step t s"] by (simp add: ov)
qed

subsection \<open>The flags in the reachable states\<close>

lemma flags_ok_new: "flags_ok (state_of (new_BasicWorldDemo doc))"
  by (simp add: flags_ok_def new_BasicWorldDemo_def Initialize_def and_then_def blank_def RAF_def Let_def
      split: option.splits)

lemma flags_ok_OnStart: "flags_ok s \<Longrightarrow> flags_ok (state_of (OnStart s))"
  by (simp add: flags_ok_def OnStart_def Let_def split: option.splits)

lemma flags_ok_OnReplay: "flags_ok s \<Longrightarrow> flags_ok (state_of (OnReplay s))"
  by (simp add: flags_ok_def OnReplay_def ResetGame_def Let_def split: option.splits)

lemma flags_ok_change: "flags_ok s \<Longrightarrow> flags_ok (change_character v s)"
  by (simp add: flags_ok_def change_character_def OnCharacterSelect_def Let_def split: option.splits)

lemma flags_ok_resize: "flags_ok s \<Longrightarrow> flags_ok (OnWindowResize w h s)"
  by (simp add: flags_ok_def OnWindowResize_def Let_def)

lemma flags_ok_frame: "flags_ok s \<Longrightarrow> flags_ok (state_of (frame env t s))"
  using frame_flags [of env t s] by (auto simp: flags_ok_def)

lemma reachable_flags_ok: "reachable env s \<Longrightarrow> flags_ok s"
  by (induction rule: reachable.induct)
    (simp_all add: flags_ok_new flags_ok_OnStart flags_ok_OnReplay flags_ok_change flags_ok_resize flags_ok_frame)

subsection \<open>What the handlers build\<close>

lemma InitializeScene_objects:
  "this_scene (InitializeScene s) =
     \<lparr>children = children (this_scene s) @ built (fresh s) (this_currentCharacter s),
      background = Some 8421504, fog = Some (9024235, 0.00125)\<rparr>"
  "this_world (InitializeScene s) = Some \<lparr>world_mesh = \<lparr>ident = fresh s + 4, kind = WorldActor\<rparr>\<rparr>"
  "this_player (InitializeScene s) =
     Some \<lparr>mesh = \<lparr>ident = fresh s + 5, kind = PlayerActor (this_currentCharacter s)\<rparr>, gameOver = False\<rparr>"
  "this_background (InitializeScene s) =
     Some \<lparr>background_mesh = \<lparr>ident = fresh s + 6, kind = BackgroundActor\<rparr>\<rparr>"
  "fresh (InitializeScene s) = fresh s + 7"
  "this_currentCharacter (InitializeScene s) = this_currentCharacter s"
  by (simp_all add: InitializeScene_def Let_def scene_defs built_def)



lemma OnReplay_Returned:
  assumes "document s ''character-select'' = Some select"
    and "document s ''game-over'' = Some panel"
  shows "is_Returned (OnReplay s)"
    and "this_scene (state_of (OnReplay s)) =
           \<lparr>children = built (fresh s) (Some (el_value select)),
            background = Some 8421504, fog = Some (9024235, 0.00125)\<rparr>"
    and "this_world (state_of (OnReplay s)) = Some \<lparr>world_mesh = \<lparr>ident = fresh s + 4, kind = WorldActor\<rparr>\<rparr>"
    and "this_player (state_of (OnReplay s)) =
           Some \<lparr>mesh = \<lparr>ident = fresh s + 5, kind = PlayerActor (Some (el_value select))\<rparr>, gameOver = False\<rparr>"
    and "this_background (state_of (OnReplay s)) =
           Some \<lparr>background_mesh = \<lparr>ident = fresh s + 6, kind = BackgroundActor\<rparr>\<rparr>"
    and "this_gameOver (state_of (OnReplay s)) = False"
    and "this_gameStarted (state_of (OnReplay s)) = True"
    and "this_currentCharacter (state_of (OnReplay s)) = Some (el_value select)"
  using assms
  by (simp_all add: OnReplay_def ResetGame_def Let_def InitializeScene_objects scene_clear_def)


lemma OnStart_Returned:
  assumes "document s ''character-select'' = Some select"
    and "document s ''game-menu'' = Some menu"
  shows "is_Returned (OnStart s)"
    and "this_gameStarted (state_of (OnStart s)) = True"
    and "this_gameOver (state_of (OnStart s)) = this_gameOver s"
  using assms
  by (simp_all add: OnStart_def Let_def)

subsection \<open>The updates of a frame, whatever its outcome\<close>

lemma Step_calls_cases:
  "calls (state_of (Step env d s)) = calls s
   \<or> calls (state_of (Step env d s)) = calls s @ [PlayerUpdate d]
   \<or> calls (state_of (Step env d s)) = calls s @ [PlayerUpdate d, WorldUpdate d]
   \<or> calls (state_of (Step env d s)) = calls s @ [PlayerUpdate d, WorldUpdate d, BackgroundUpdate d]"
  by (simp add: Step_def and_then_def call_Player_Update_def call_World_Update_def
      call_Background_Update_def Let_def split: option.splits)

lemma frame_calls_Threw:
  assumes "\<not> is_Returned (frame env t s)"
  shows "calls (state_of (frame env t s)) = calls (state_of (Step env (elapsed t s) (before_Step t s)))"
  using assms
  by (cases "Step env (elapsed t s) (before_Step t s)") (auto simp: frame_unfold and_then_def)

lemma frame_updates_cases:
  "filter is_update (calls_since s (state_of (frame env t s))) \<in>
     {[], [PlayerUpdate (elapsed t s)], [PlayerUpdate (elapsed t s), WorldUpdate (elapsed t s)],
      [PlayerUpdate (elapsed t s), WorldUpdate (elapsed t s), BackgroundUpdate (elapsed t s)]}"
proof (cases "frame env t s")
  case (Returned s')
  from frame_Returned_calls [OF this] show ?thesis
    by (simp add: Returned calls_since_def)
next
  case (Threw e s')
  then have "\<not> is_Returned (frame env t s)" by simp
  from frame_calls_Threw [OF this] Step_calls_cases [of env "elapsed t s" "before_Step t s"]
  show ?thesis
    by (auto simp: calls_since_def)
qed

subsection \<open>The collaborators stay defined\<close>

lemma invoke_defined:
  assumes "well_behaved env" and "collaborators_defined s"
  shows "collaborators_defined (invoke (Player_Update env d) s)"
    and "collaborators_defined (invoke (World_Update env d) s)"
    and "collaborators_defined (invoke (Background_Update env d) s)"
proof -
  let ?v = "\<lparr>this_scene = this_scene s, this_world = this_world s, this_player = this_player s,
             this_background = this_background s, fresh = fresh s\<rparr>"
  have "collaborators_defined ?v"
    using assms(2) by (simp add: collaborators_defined_def)
  with assms(1) have "collaborators_defined (Player_Update env d ?v)"
    "collaborators_defined (World_Update env d ?v)"
    "collaborators_defined (Background_Update env d ?v)"
    by (simp_all add: well_behaved_def)
  then show "collaborators_defined (invoke (Player_Update env d) s)"
    and "collaborators_defined (invoke (World_Update env d) s)"
    and "collaborators_defined (invoke (Background_Update env d) s)"
    by (simp_all add: invoke_def Let_def collaborators_defined_def)
qed

lemma log_call_defined [simp]:
  "collaborators_defined (log_call c s) = collaborators_defined s"
  by (simp add: collaborators_defined_def)

lemma updated_fields [simp]:
  "this_gameStarted (updated env d s) = this_gameStarted s"
  "this_gameOver (updated env d s) = this_gameOver s"
  "document (updated env d s) = document s"
  "this_previousRAF (updated env d s) = this_previousRAF s"
  "this_camera (updated env d s) = this_camera s"
  "calls (updated env d s) = calls s @ [PlayerUpdate d, WorldUpdate d, BackgroundUpdate d]"
  by (simp_all add: updated_def)

lemma updated_defined:
  assumes "well_behaved env" and "collaborators_defined s"
  shows "collaborators_defined (updated env d s)"
  unfolding updated_def
  by (intro invoke_defined(3) [OF assms(1)] invoke_defined(2) [OF assms(1)]
      invoke_defined(1) [OF assms(1)] log_call_defined [THEN iffD2] assms(2))

lemma Step_playing:
  assumes "well_behaved env" and "collaborators_defined s"
    and "this_gameStarted s" and "\<not> this_gameOver s"
  shows "Step env d s =
     (case this_player (updated env d s) of
        None \<Rightarrow> Threw TypeError (updated env d s)
      | Some p \<Rightarrow>
          if gameOver p
          then (case document s ''game-over'' of
                  None \<Rightarrow> Threw TypeError ((updated env d s)\<lparr>this_gameOver := True\<rparr>)
                | Some panel \<Rightarrow>
                    Returned ((updated env d s)
                      \<lparr>this_gameOver := True,
                       document := (document s)(''game-over'' \<mapsto> classList_add ''active'' panel)\<rparr>))
          else Returned (updated env d s))"
proof -
  let ?s1 = "invoke (Player_Update env d) (log_call (PlayerUpdate d) s)"
  let ?s2 = "invoke (World_Update env d) (log_call (WorldUpdate d) ?s1)"
  have d1: "collaborators_defined ?s1"
    using assms(1,2) by (simp add: invoke_defined)
  have d2: "collaborators_defined ?s2"
    using assms(1) d1 by (simp add: invoke_defined)
  obtain p where p: "this_player s = Some p"
    using assms(2) by (auto simp: collaborators_defined_def)
  obtain w where w: "this_world ?s1 = Some w"
    using d1 by (auto simp: collaborators_defined_def)
  obtain b where b: "this_background ?s2 = Some b"
    using d2 by (auto simp: collaborators_defined_def)
  show ?thesis
    using assms(3,4) p w b
    by (simp add: Step_def and_then_def call_Player_Update_def call_World_Update_def
        call_Background_Update_def updated_def Let_def split: option.splits)
qed

lemma Step_playing_calls:
  assumes "well_behaved env" and "collaborators_defined s"
    and "this_gameStarted s" and "\<not> this_gameOver s"
  shows "calls (state_of (Step env d s)) = calls s @ [PlayerUpdate d, WorldUpdate d, BackgroundUpdate d]"
  using updated_defined [OF assms(1,2), of d]
  by (auto simp: Step_playing [OF assms] collaborators_defined_def split: option.splits)

lemma Step_playing_completes:
  assumes "well_behaved env" and "collaborators_defined s"
    and "this_gameStarted s" and "\<not> this_gameOver s" and "document s ''game-over'' \<noteq> None"
  shows "is_Returned (Step env d s)"
proof -
  obtain panel where "document s ''game-over'' = Some panel"
    using assms(5) by auto
  moreover obtain p where "this_player (updated env d s) = Some p"
    using updated_defined [OF assms(1,2), of d] by (auto simp: collaborators_defined_def)
  ultimately show ?thesis
    by (simp add: Step_playing [OF assms(1-4)])
qed

lemma Step_defined:
  assumes "well_behaved env" and "collaborators_defined s"
  shows "collaborators_defined (state_of (Step env d s))"
proof (cases "this_gameStarted s \<and> \<not> this_gameOver s")
  case True
  then show ?thesis
    using updated_defined [OF assms, of d]
    by (auto simp: Step_playing [OF assms] collaborators_defined_def split: option.splits)
next
  case False
  then show ?thesis
    using assms(2) by (simp add: Step_not_playing)
qed

lemma before_Step_more [simp]:
  "collaborators_defined (before_Step t s) = collaborators_defined s"
  "document (before_Step t s) = document s"
  by (simp_all add: before_Step_def RAF_def collaborators_defined_def)

lemma frame_state_cases:
  "\<exists>c p. state_of (frame env t s) =
     (state_of (Step env (elapsed t s) (before_Step t s)))\<lparr>calls := c, this_previousRAF := p\<rparr>"
proof (cases "Step env (elapsed t s) (before_Step t s)")
  case (Returned s3)
  then show ?thesis
    by (simp add: frame_unfold and_then_def log_call_def) blast
next
  case (Threw e s3)
  have "s3 = s3\<lparr>calls := calls s3, this_previousRAF := this_previousRAF s3\<rparr>"
    by simp
  then have "\<exists>c p. s3 = s3\<lparr>calls := c, this_previousRAF := p\<rparr>"
    by blast
  then show ?thesis
    using Threw by (simp add: frame_unfold and_then_def)
qed

lemma frame_defined:
  assumes "well_behaved env" and "collaborators_defined s"
  shows "collaborators_defined (state_of (frame env t s))"
proof -
  obtain c p where "state_of (frame env t s) =
     (state_of (Step env (elapsed t s) (before_Step t s)))\<lparr>calls := c, this_previousRAF := p\<rparr>"
    using frame_state_cases by blast
  moreover have "collaborators_defined (before_Step t s)"
    using assms(2) by simp
  from Step_defined [OF assms(1) this, of "elapsed t s"]
  have "collaborators_defined (state_of (Step env (elapsed t s) (before_Step t s)))" .
  ultimately show ?thesis
    by (simp add: collaborators_defined_def)
qed

lemma frame_completes:
  assumes "well_behaved env" and "collaborators_defined s" and "document s ''game-over'' \<noteq> None"
  shows "is_Returned (frame env t s)"
proof (cases "session_state s = Playing")
  case True
  then have "is_Returned (Step env (elapsed t s) (before_Step t s))"
    using assms by (intro Step_playing_completes) (simp_all add: session_state_Playing)
  then show ?thesis
    by (cases "Step env (elapsed t s) (before_Step t s)") (simp_all add: frame_unfold and_then_def)
next
  case False
  then show ?thesis by (rule frame_not_playing(1))
qed

lemma frame_playing_updates:
  assumes "well_behaved env" and "collaborators_defined s" and "session_state s = Playing"
  shows "filter is_update (calls_since s (state_of (frame env t s))) =
           [PlayerUpdate (elapsed t s), WorldUpdate (elapsed t s), BackgroundUpdate (elapsed t s)]"
proof (cases "frame env t s")
  case (Returned s')
  from frame_Returned_calls [OF this] show ?thesis
    using assms(3) by (simp add: Returned calls_since_def)
next
  case (Threw e s')
  then have "\<not> is_Returned (frame env t s)" by simp
  from frame_calls_Threw [OF this]
  have "calls (state_of (frame env t s)) =
          calls s @ [RequestAnimationFrame, PlayerUpdate (elapsed t s), WorldUpdate (elapsed t s),
                     BackgroundUpdate (elapsed t s)]"
    using assms by (simp add: Step_playing_calls session_state_Playing)
  then show ?thesis
    by (simp add: calls_since_def)
qed

lemma defined_new:
  "is_Returned (Initialize (blank doc)) \<Longrightarrow> collaborators_defined (state_of (new_BasicWorldDemo doc))"
  by (auto simp: new_BasicWorldDemo_def Initialize_def and_then_def RAF_def Let_def
      InitializeScene_objects collaborators_defined_def log_call_def split: option.splits)

lemma defined_OnStart: "collaborators_defined s \<Longrightarrow> collaborators_defined (state_of (OnStart s))"
  by (auto simp: OnStart_def ResetPlayer_def Let_def scene_defs collaborators_defined_def
      split: option.splits)

lemma defined_OnReplay: "collaborators_defined s \<Longrightarrow> collaborators_defined (state_of (OnReplay s))"
  by (auto simp: OnReplay_def ResetGame_def Let_def InitializeScene_objects collaborators_defined_def
      split: option.splits)

lemma defined_change: "collaborators_defined s \<Longrightarrow> collaborators_defined (change_character v s)"
  by (simp add: change_character_def OnCharacterSelect_def Let_def collaborators_defined_def log_call_def
      split: option.splits)

lemma defined_resize: "collaborators_defined s \<Longrightarrow> collaborators_defined (OnWindowResize w h s)"
  by (simp add: OnWindowResize_def Let_def collaborators_defined_def log_call_def)

lemma reachable_defined:
  assumes "well_behaved env" and "reachable env s"
  shows "collaborators_defined s"
  using assms(2)
  by (induction rule: reachable.induct)
    (simp_all add: defined_new defined_OnStart defined_OnReplay defined_change defined_resize
      frame_defined [OF assms(1)])

subsection \<open>The run on \<open>page0\<close>\<close>

lemma page0_lookup [simp]:
  "page0 ''container'' = Some element0"
  "page0 ''play-button'' = Some element0"
  "page0 ''replay-button'' = Some element0"
  "page0 ''character-select'' = Some (element0\<lparr>el_value := ''Trex''\<rparr>)"
  "page0 ''game-menu'' = Some element0"
  "page0 ''game-over'' = Some element0"
  by (simp_all add: page0_def)

lemmas run_defs = new_BasicWorldDemo_def Initialize_def InitializeScene_def blank_def RAF_def
  and_then_def OnStart_def OnReplay_def ResetGame_def ResetPlayer_def frame_def Step_def
  call_Player_Update_def call_World_Update_def call_Background_Update_def invoke_def log_call_def
  scene_defs scene_remove_def scene_clear_def classList_add_def classList_remove_def
  fatal_player_def element0_def Let_def

lemma app0_eq: "new_BasicWorldDemo page0 = Returned app0" "app0 =
  \<lparr>this_scene = scene0,
   this_world = Some \<lparr>world_mesh = \<lparr>ident = 4, kind = WorldActor\<rparr>\<rparr>,
   this_player = Some \<lparr>mesh = \<lparr>ident = 5, kind = PlayerActor None\<rparr>, gameOver = False\<rparr>,
   this_background = Some \<lparr>background_mesh = \<lparr>ident = 6, kind = BackgroundActor\<rparr>\<rparr>,
   fresh = 7, this_camera = camera0, this_previousRAF = None,
   this_gameStarted = False, this_gameOver = False,
   this_currentCharacter = Some ''Velociraptor'', document = page0,
   calls = [RequestAnimationFrame]\<rparr>"
  by (simp_all add: run_defs app0_def built_def scene0_def camera0_def)

lemma early_eq: "OnStart app0 = Returned early" "early =
  \<lparr>this_scene = scene1,
   this_world = Some \<lparr>world_mesh = \<lparr>ident = 4, kind = WorldActor\<rparr>\<rparr>,
   this_player = Some \<lparr>mesh = \<lparr>ident = 7, kind = PlayerActor (Some ''Trex'')\<rparr>, gameOver = False\<rparr>,
   this_background = Some \<lparr>background_mesh = \<lparr>ident = 6, kind = BackgroundActor\<rparr>\<rparr>,
   fresh = 8, this_camera = camera0, this_previousRAF = None,
   this_gameStarted = True, this_gameOver = False,
   this_currentCharacter = Some ''Trex'',
   document = page0(''game-menu'' \<mapsto> \<lparr>el_value = [], style_display = ''none'', classList = []\<rparr>),
   calls = [RequestAnimationFrame]\<rparr>"
  by (simp_all add: early_def app0_eq(2) run_defs built_def scene0_def scene1_def)

lemma app1_eq: "app1 =
  \<lparr>this_scene = scene1,
   this_world = Some \<lparr>world_mesh = \<lparr>ident = 4, kind = WorldActor\<rparr>\<rparr>,
   this_player = Some \<lparr>mesh = \<lparr>ident = 7, kind = PlayerActor (Some ''Trex'')\<rparr>, gameOver = False\<rparr>,
   this_background = Some \<lparr>background_mesh = \<lparr>ident = 6, kind = BackgroundActor\<rparr>\<rparr>,
   fresh = 8, this_camera = camera0, this_previousRAF = Some 5,
   this_gameStarted = True, this_gameOver = False,
   this_currentCharacter = Some ''Trex'',
   document = page0(''game-menu'' \<mapsto> \<lparr>el_value = [], style_display = ''none'', classList = []\<rparr>),
   calls = [RequestAnimationFrame, RequestAnimationFrame, Render scene0 camera0]\<rparr>"
  by (simp add: app1_def app0_eq(2) run_defs built_def scene0_def scene1_def)

lemma app2_eq: "frame fatal_player 7 app1 = Returned app2" "app2 =
  \<lparr>this_scene = scene1,
   this_world = Some \<lparr>world_mesh = \<lparr>ident = 4, kind = WorldActor\<rparr>\<rparr>,
   this_player = Some \<lparr>mesh = \<lparr>ident = 7, kind = PlayerActor (Some ''Trex'')\<rparr>, gameOver = True\<rparr>,
   this_background = Some \<lparr>background_mesh = \<lparr>ident = 6, kind = BackgroundActor\<rparr>\<rparr>,
   fresh = 8, this_camera = camera0, this_previousRAF = Some 7,
   this_gameStarted = True, this_gameOver = True,
   this_currentCharacter = Some ''Trex'',
   document = page0(''game-menu'' \<mapsto> \<lparr>el_value = [], style_display = ''none'', classList = []\<rparr>,
                    ''game-over'' \<mapsto> \<lparr>el_value = [], style_display = [], classList = [''active'']\<rparr>),
   calls = [RequestAnimationFrame, RequestAnimationFrame, Render scene0 camera0,
            RequestAnimationFrame, PlayerUpdate (1 / 500), WorldUpdate (1 / 500),
            BackgroundUpdate (1 / 500), Render scene1 camera0]\<rparr>"
  by (simp_all add: app2_def app1_eq run_defs)

lemma reachable_apps: "reachable fatal_player app1" "reachable fatal_player app2"
proof -
  have "is_Returned (Initialize (blank page0))"
    by (simp add: Initialize_def blank_def)
  then have "reachable fatal_player app0"
    unfolding app0_def by (rule reachable.constructed)
  then show "reachable fatal_player app1"
    unfolding app1_def by (intro reachable.intros)
  then show "reachable fatal_player app2"
    unfolding app2_def by (rule reachable.tick)
qed

lemma well_behaved_fatal_player: "well_behaved fatal_player"
  by (auto simp: well_behaved_def fatal_player_def collaborators_defined_def)


lemma app_session_states:
  "session_state app0 = Idle" "session_state early = Playing"
  "session_state app1 = Playing" "session_state app2 = GameOver"
  by (simp_all add: session_state_def app0_eq(2) early_eq(2) app1_eq app2_eq(2))

subsection \<open>The claims about the application\<close>

lemma OnStart_builds:
  assumes "document s ''character-select'' = Some select"
    and "document s ''game-menu'' = Some menu"
  shows "this_currentCharacter (state_of (OnStart s)) = Some (el_value select)"
    and "this_player (state_of (OnStart s)) =
           Some \<lparr>mesh = \<lparr>ident = fresh s, kind = PlayerActor (Some (el_value select))\<rparr>, gameOver = False\<rparr>"
    and "children (this_scene (state_of (OnStart s))) =
           (case this_player s of
              None \<Rightarrow> children (this_scene s)
            | Some old \<Rightarrow> remove1 (mesh old) (children (this_scene s)))
           @ [\<lparr>ident = fresh s, kind = PlayerActor (Some (el_value select))\<rparr>]"
    and "this_world (state_of (OnStart s)) = this_world s"
    and "this_background (state_of (OnStart s)) = this_background s"
    and "document (state_of (OnStart s)) ''game-menu'' = Some (menu\<lparr>style_display := ''none''\<rparr>)"
  using assms
  by (simp_all add: OnStart_def ResetPlayer_def Let_def scene_defs scene_remove_def split: option.splits)

text \<open>
  C1, as the code has it. \<open>_OnStart\<close> and \<open>_OnReplay\<close> check no state: when the page
  elements they touch exist, each returns normally in every session state. A start
  while the state is not Idle leaves the session state as it is; it sets the character
  to the dropdown's value, takes the old player's actor out of the scene and adds a
  new player bound to that character, leaves the world and the background as they
  are, and hides the menu. A replay ends in Playing, whatever the state was, with the
  character set to the dropdown's value and the scene made of the seven baseline
  actors, newly built.
\<close>

theorem start_replay_unguarded:
  assumes "document s ''character-select'' = Some select"
    and "document s ''game-menu'' = Some menu"
    and "document s ''game-over'' = Some panel"
  shows "is_Returned (OnStart s)
       \<and> (session_state s \<noteq> Idle \<longrightarrow> session_state (state_of (OnStart s)) = session_state s)
       \<and> this_currentCharacter (state_of (OnStart s)) = Some (el_value select)
       \<and> this_player (state_of (OnStart s)) =
           Some \<lparr>mesh = \<lparr>ident = fresh s, kind = PlayerActor (Some (el_value select))\<rparr>, gameOver = False\<rparr>
       \<and> children (this_scene (state_of (OnStart s))) =
           (case this_player s of
              None \<Rightarrow> children (this_scene s)
            | Some old \<Rightarrow> remove1 (mesh old) (children (this_scene s)))
           @ [\<lparr>ident = fresh s, kind = PlayerActor (Some (el_value select))\<rparr>]
       \<and> this_world (state_of (OnStart s)) = this_world s
       \<and> this_background (state_of (OnStart s)) = this_background s
       \<and> document (state_of (OnStart s)) ''game-menu'' = Some (menu\<lparr>style_display := ''none''\<rparr>)
       \<and> is_Returned (OnReplay s)
       \<and> session_state (state_of (OnReplay s)) = Playing
       \<and> this_currentCharacter (state_of (OnReplay s)) = Some (el_value select)
       \<and> this_scene (state_of (OnReplay s)) =
           \<lparr>children = built (fresh s) (Some (el_value select)),
            background = Some 8421504, fog = Some (9024235, 0.00125)\<rparr>"
proof -
  have st: "session_state s \<noteq> Idle \<longrightarrow> session_state (state_of (OnStart s)) = session_state s"
    using OnStart_Returned(2,3) [OF assms(1,2)] by (auto simp: session_state_def)
  have rp: "session_state (state_of (OnReplay s)) = Playing"
    using OnReplay_Returned(6,7) [OF assms(1,3)] by (simp add: session_state_def)
  show ?thesis
    using st rp OnStart_Returned(1) [OF assms(1,2)] OnStart_builds [OF assms(1,2)]
      OnReplay_Returned(1,2,8) [OF assms(1,3)]
    by simp
qed

theorem start_replay_unguarded_witness:
  "session_state app1 = Playing
   \<and> is_Returned (OnStart app1) \<and> session_state (state_of (OnStart app1)) = Playing
   \<and> this_player (state_of (OnStart app1)) =
       Some \<lparr>mesh = \<lparr>ident = 8, kind = PlayerActor (Some ''Trex'')\<rparr>, gameOver = False\<rparr>
   \<and> is_Returned (OnReplay app1) \<and> session_state (state_of (OnReplay app1)) = Playing
   \<and> children (this_scene (state_of (OnReplay app1))) = built 8 (Some ''Trex'')
   \<and> session_state app2 = GameOver
   \<and> is_Returned (OnStart app2) \<and> session_state (state_of (OnStart app2)) = GameOver"
proof -
  have d1: "document app1 ''character-select'' = Some (element0\<lparr>el_value := ''Trex''\<rparr>)"
    "document app1 ''game-menu'' = Some \<lparr>el_value = [], style_display = ''none'', classList = []\<rparr>"
    "document app1 ''game-over'' = Some element0"
    by (simp_all add: app1_eq)
  have d2: "document app2 ''character-select'' = Some (element0\<lparr>el_value := ''Trex''\<rparr>)"
    "document app2 ''game-menu'' = Some \<lparr>el_value = [], style_display = ''none'', classList = []\<rparr>"
    "document app2 ''game-over'' = Some \<lparr>el_value = [], style_display = [], classList = [''active'']\<rparr>"
    by (simp_all add: app2_eq(2))
  have f: "fresh app1 = 8"
    by (simp add: app1_eq)
  show ?thesis
    using start_replay_unguarded [OF d1] start_replay_unguarded [OF d2] f
    by (simp add: app_session_states)
qed

text \<open>
  C1 as stated fails: a replay while Idle returns normally and moves the state to
  Playing, and a start while Playing returns normally too; no violation is signalled.
\<close>

theorem replay_while_idle_runs:
  "session_state app0 = Idle
   \<and> is_Returned (OnReplay app0) \<and> session_state (state_of (OnReplay app0)) = Playing
   \<and> session_state app1 = Playing
   \<and> is_Returned (OnStart app1)"
proof -
  have d0: "document app0 ''character-select'' = Some (element0\<lparr>el_value := ''Trex''\<rparr>)"
    "document app0 ''game-over'' = Some element0"
    by (simp_all add: app0_eq(2))
  have d1: "document app1 ''character-select'' = Some (element0\<lparr>el_value := ''Trex''\<rparr>)"
    "document app1 ''game-menu'' = Some \<lparr>el_value = [], style_display = ''none'', classList = []\<rparr>"
    by (simp_all add: app1_eq)
  have r: "session_state (state_of (OnReplay app0)) = Playing"
    using OnReplay_Returned(6,7) [OF d0] by (simp add: session_state_def)
  show ?thesis
    using OnReplay_Returned(1) [OF d0] OnStart_Returned(1) [OF d1] r
    by (simp add: app_session_states)
qed

text \<open>
  C3. In a frame that starts in Playing the updates called are the player's, then the
  world's, then the background's, once each, with the elapsed seconds: so in every
  reachable state, for collaborators that are well behaved, and so in any state for a
  frame that completes. In a frame that starts in Idle or GameOver, which always
  completes, no update is called. Whatever the state and the outcome, the updates
  called are an initial part of these three.
\<close>

theorem frame_updates_in_order:
  "(reachable env s \<and> well_behaved env \<and> session_state s = Playing \<longrightarrow>
      filter is_update (calls_since s (state_of (frame env t s))) =
        [PlayerUpdate (elapsed t s), WorldUpdate (elapsed t s), BackgroundUpdate (elapsed t s)])
   \<and> (session_state s = Playing \<and> frame env t s = Returned s' \<longrightarrow>
        filter is_update (calls_since s s') =
          [PlayerUpdate (elapsed t s), WorldUpdate (elapsed t s), BackgroundUpdate (elapsed t s)])
   \<and> (session_state s \<noteq> Playing \<longrightarrow>
        is_Returned (frame env t s)
        \<and> filter is_update (calls_since s (state_of (frame env t s))) = [])
   \<and> filter is_update (calls_since s (state_of (frame env t s))) \<in>
        {[], [PlayerUpdate (elapsed t s)],
         [PlayerUpdate (elapsed t s), WorldUpdate (elapsed t s)],
         [PlayerUpdate (elapsed t s), WorldUpdate (elapsed t s), BackgroundUpdate (elapsed t s)]}"
proof -
  have reach: "filter is_update (calls_since s (state_of (frame env t s))) =
        [PlayerUpdate (elapsed t s), WorldUpdate (elapsed t s), BackgroundUpdate (elapsed t s)]"
    if "reachable env s" "well_behaved env" "session_state s = Playing"
    using frame_playing_updates [OF that(2) reachable_defined [OF that(2,1)] that(3)] .
  have playing: "filter is_update (calls_since s s') =
        [PlayerUpdate (elapsed t s), WorldUpdate (elapsed t s), BackgroundUpdate (elapsed t s)]"
    if "session_state s = Playing" "frame env t s = Returned s'"
    using frame_Returned_calls [OF that(2)] that(1) by (simp add: calls_since_def)
  have other: "is_Returned (frame env t s)
        \<and> filter is_update (calls_since s (state_of (frame env t s))) = []"
    if "session_state s \<noteq> Playing"
    using frame_not_playing [OF that, of env t] by (simp add: calls_since_def)
  show ?thesis
    using reach playing other frame_updates_cases [of s env t] by blast
qed

theorem frame_updates_in_order_witness:
  "reachable fatal_player app1 \<and> well_behaved fatal_player
   \<and> session_state app1 = Playing \<and> frame fatal_player 7 app1 = Returned app2
   \<and> filter is_update (calls_since app1 app2) =
       [PlayerUpdate (1 / 500), WorldUpdate (1 / 500), BackgroundUpdate (1 / 500)]
   \<and> session_state app0 = Idle
   \<and> filter is_update (calls_since app0 (state_of (frame fatal_player 5 app0))) = []
   \<and> session_state app2 = GameOver
   \<and> filter is_update (calls_since app2 (state_of (frame fatal_player 9 app2))) = []"
proof -
  have e: "elapsed 7 app1 = 1 / 500"
    by (simp add: elapsed_def app1_eq)
  show ?thesis
    using frame_updates_in_order [of fatal_player app1 7 app2]
      frame_updates_in_order [of fatal_player app0 5]
      frame_updates_in_order [of fatal_player app2 9]
    by (simp add: app_session_states app2_eq(1) e reachable_apps well_behaved_fatal_player)
qed

text \<open>
  C8. A frame that completes calls render exactly once, with the scene and the camera
  as they are then, whatever the session state. A frame that starts in Idle or GameOver
  always completes; so does every frame from a reachable state, for collaborators that
  are well behaved on a page that has the game-over panel.
\<close>

theorem frame_renders_once:
  "(frame env t s = Returned s' \<longrightarrow>
      filter is_render (calls_since s s') = [Render (this_scene s') (this_camera s')])
   \<and> (session_state s \<noteq> Playing \<longrightarrow>
        is_Returned (frame env t s)
        \<and> filter is_render (calls_since s (state_of (frame env t s))) =
            [Render (this_scene s) (this_camera s)])
   \<and> (reachable env s \<and> well_behaved env \<and> document s ''game-over'' \<noteq> None \<longrightarrow>
        is_Returned (frame env t s))"
proof -
  have one: "filter is_render (calls_since s s') = [Render (this_scene s') (this_camera s')]"
    if "frame env t s = Returned s'"
    using frame_Returned_calls [OF that] by (simp add: calls_since_def)
  have other: "is_Returned (frame env t s)
        \<and> filter is_render (calls_since s (state_of (frame env t s))) =
            [Render (this_scene s) (this_camera s)]"
    if "session_state s \<noteq> Playing"
    using frame_not_playing [OF that, of env t] by (simp add: calls_since_def)
  have reach: "is_Returned (frame env t s)"
    if "reachable env s" "well_behaved env" "document s ''game-over'' \<noteq> None"
    using frame_completes [OF that(2) reachable_defined [OF that(2,1)] that(3)] .
  show ?thesis
    using one other reach by blast
qed

theorem frame_renders_once_witness:
  "reachable fatal_player app1 \<and> well_behaved fatal_player
   \<and> document app1 ''game-over'' = Some element0
   \<and> frame fatal_player 7 app1 = Returned app2
   \<and> session_state app1 = Playing
   \<and> filter is_render (calls_since app1 app2) = [Render scene1 camera0]
   \<and> session_state app0 = Idle
   \<and> filter is_render (calls_since app0 (state_of (frame fatal_player 5 app0))) = [Render scene0 camera0]
   \<and> session_state app2 = GameOver
   \<and> filter is_render (calls_since app2 (state_of (frame fatal_player 9 app2))) = [Render scene1 camera0]"
proof -
  have sc: "this_scene app2 = scene1" "this_camera app2 = camera0"
    "this_scene app0 = scene0" "this_camera app0 = camera0"
    "document app1 ''game-over'' = Some element0"
    by (simp_all add: app2_eq(2) app0_eq(2) app1_eq)
  show ?thesis
    using frame_renders_once [of fatal_player 7 app1 app2]
      frame_renders_once [of fatal_player 5 app0]
      frame_renders_once [of fatal_player 9 app2]
    by (simp add: app_session_states app2_eq(1) sc reachable_apps well_behaved_fatal_player)
qed

text \<open>
  C4, as the code has it. On the first frame the timestamp is recorded, the next frame
  is requested, and the frame goes on like any other with an elapsed time of 0: the
  updates (in Playing) get 0, and render is called once.
\<close>

theorem first_frame:
  assumes "this_previousRAF s = None"
  shows "elapsed t s = 0
       \<and> this_previousRAF (state_of (frame env t s)) = Some t
       \<and> (frame env t s = Returned s' \<longrightarrow>
            calls_since s s' =
              RequestAnimationFrame #
              (if session_state s = Playing
               then [PlayerUpdate 0, WorldUpdate 0, BackgroundUpdate 0] else [])
              @ [Render (this_scene s') (this_camera s')])"
proof -
  have e: "elapsed t s = 0"
    using assms by (simp add: elapsed_def)
  have p: "this_previousRAF (state_of (frame env t s)) = Some t"
    using assms by (simp add: frame_previousRAF)
  have c: "calls_since s s' =
              RequestAnimationFrame #
              (if session_state s = Playing
               then [PlayerUpdate 0, WorldUpdate 0, BackgroundUpdate 0] else [])
              @ [Render (this_scene s') (this_camera s')]"
    if "frame env t s = Returned s'"
    using frame_Returned_calls [OF that] by (simp add: calls_since_def e)
  show ?thesis
    using e p c by blast
qed

theorem first_frame_witness:
  "this_previousRAF early = None \<and> session_state early = Playing
   \<and> elapsed 5 early = 0
   \<and> this_previousRAF (state_of (frame fatal_player 5 early)) = Some 5"
proof -
  have p: "this_previousRAF early = None"
    by (simp add: early_eq(2))
  show ?thesis
    using first_frame [OF p, of 5 fatal_player] p
    by (simp add: app_session_states)
qed

text \<open>
  C4 as stated fails: the first frame of the constructed application calls render, and
  the first frame of an application started before it calls the three updates and render.
\<close>

theorem first_frame_renders:
  "this_previousRAF app0 = None
   \<and> calls_since app0 (state_of (frame fatal_player 5 app0)) =
       [RequestAnimationFrame, Render scene0 camera0]
   \<and> this_previousRAF early = None
   \<and> calls_since early (state_of (frame fatal_player 5 early)) =
       [RequestAnimationFrame, PlayerUpdate 0, WorldUpdate 0, BackgroundUpdate 0,
        Render scene1 camera0]"
  by (simp add: app0_eq(2) early_eq(2) calls_since_def run_defs)


lemma handlers_keep_gameOver:
  "this_gameOver (state_of (OnStart s)) = this_gameOver s"
  "this_gameOver (state_of (OnReplay s)) \<longrightarrow> this_gameOver s"
  "this_gameOver (change_character v s) = this_gameOver s"
  "this_gameOver (OnWindowResize w h s) = this_gameOver s"
  "\<not> this_gameOver (state_of (new_BasicWorldDemo doc))"
  by (simp_all add: OnStart_def OnReplay_def ResetGame_def change_character_def OnCharacterSelect_def
      OnWindowResize_def new_BasicWorldDemo_def Initialize_def and_then_def blank_def RAF_def Let_def
      split: option.splits)

text \<open>
  C10. In every reachable state \<open>_gameOver\<close> implies \<open>_gameStarted\<close>: the constructor
  leaves \<open>_gameOver\<close> false, no handler raises it, and a frame raises it only from a
  state in which \<open>_gameStarted\<close> holds.
\<close>

theorem gameOver_implies_gameStarted:
  assumes "reachable env s"
  shows "(this_gameOver s \<longrightarrow> this_gameStarted s)
       \<and> \<not> this_gameOver (state_of (new_BasicWorldDemo doc))
       \<and> (this_gameOver (state_of (OnStart s)) \<longrightarrow> this_gameOver s)
       \<and> (this_gameOver (state_of (OnReplay s)) \<longrightarrow> this_gameOver s)
       \<and> (this_gameOver (change_character v s) \<longrightarrow> this_gameOver s)
       \<and> (this_gameOver (OnWindowResize w h s) \<longrightarrow> this_gameOver s)
       \<and> (this_gameOver (state_of (frame env t s)) \<longrightarrow> this_gameOver s \<or> this_gameStarted s)"
  using reachable_flags_ok [OF assms] frame_flags(2) [of env t s]
  by (simp add: flags_ok_def handlers_keep_gameOver)

theorem gameOver_implies_gameStarted_witness:
  "reachable fatal_player app2 \<and> this_gameOver app2 \<and> this_gameStarted app2"
proof -
  have "this_gameOver app2"
    by (simp add: app2_eq(2))
  then show ?thesis
    using gameOver_implies_gameStarted [OF reachable_apps(2)] reachable_apps(2) by simp
qed





end
